theory Spec2Isabelle
  imports Main "HOL-Library.Word"
begin

unbundle bit_operations_syntax

section \<open>Machine types and firmware status codes\<close>

text \<open>
  SuperBoot is built for x86-64 UEFI: \<open>UINTN\<close> and pointers are 64 bits wide.
  \<open>EFI_STATUS\<close> is a \<open>UINTN\<close>; the macro \<open>EFI_ERROR\<close> of the firmware headers
  tests the top bit.  The numeric status values are those of the UEFI specification
  (the header \<open>efi.h\<close> that declares them is not part of the repository).
\<close>

type_synonym UINT8 = "8 word"
type_synonym UINT16 = "16 word"
type_synonym UINT32 = "32 word"
type_synonym UINT64 = "64 word"
type_synonym UINTN = "64 word"
type_synonym EFI_STATUS = "64 word"

definition EFI_ERROR :: "EFI_STATUS \<Rightarrow> bool" where
  "EFI_ERROR s = bit s 63"

definition EFI_SUCCESS :: EFI_STATUS where
  "EFI_SUCCESS = 0"

definition EFIERR :: "nat \<Rightarrow> EFI_STATUS" where
  "EFIERR n = 0x8000000000000000 OR of_nat n"

definition EFI_LOAD_ERROR :: EFI_STATUS where
  "EFI_LOAD_ERROR = EFIERR 1"

definition EFI_INVALID_PARAMETER :: EFI_STATUS where
  "EFI_INVALID_PARAMETER = EFIERR 2"

definition EFI_UNSUPPORTED :: EFI_STATUS where
  "EFI_UNSUPPORTED = EFIERR 3"

definition EFI_BUFFER_TOO_SMALL :: EFI_STATUS where
  "EFI_BUFFER_TOO_SMALL = EFIERR 5"

definition EFI_OUT_OF_RESOURCES :: EFI_STATUS where
  "EFI_OUT_OF_RESOURCES = EFIERR 9"


definition EFI_NOT_FOUND :: EFI_STATUS where
  "EFI_NOT_FOUND = EFIERR 14"

section \<open>EFI memory map to E820 (boot/linux.c)\<close>

text \<open>
  The members of \<open>EFI_MEMORY_DESCRIPTOR\<close> that the loader reads, and the values of
  the firmware's \<open>EFI_MEMORY_TYPE\<close> enumeration named in the \<open>switch\<close>.
\<close>

record EFI_MEMORY_DESCRIPTOR =
  Type :: UINT32
  PhysicalStart :: UINT64
  VirtualStart :: UINT64
  NumberOfPages :: UINT64
  Attribute :: UINT64

definition EfiReservedMemoryType :: UINT32 where "EfiReservedMemoryType = 0"
definition EfiLoaderCode :: UINT32 where "EfiLoaderCode = 1"
definition EfiLoaderData :: UINT32 where "EfiLoaderData = 2"
definition EfiBootServicesCode :: UINT32 where "EfiBootServicesCode = 3"
definition EfiBootServicesData :: UINT32 where "EfiBootServicesData = 4"
definition EfiRuntimeServicesCode :: UINT32 where "EfiRuntimeServicesCode = 5"
definition EfiRuntimeServicesData :: UINT32 where "EfiRuntimeServicesData = 6"
definition EfiConventionalMemory :: UINT32 where "EfiConventionalMemory = 7"
definition EfiUnusableMemory :: UINT32 where "EfiUnusableMemory = 8"
definition EfiACPIReclaimMemory :: UINT32 where "EfiACPIReclaimMemory = 9"
definition EfiACPIMemoryNVS :: UINT32 where "EfiACPIMemoryNVS = 10"
definition EfiMemoryMappedIO :: UINT32 where "EfiMemoryMappedIO = 11"

record E820Entry =
  addr :: UINT64
  size :: UINT64
  type :: UINT32

definition efi_mem_to_e820_type :: "UINT32 \<Rightarrow> UINT32" where
  "efi_mem_to_e820_type efi_type =
     (if efi_type = EfiLoaderCode \<or> efi_type = EfiLoaderData
         \<or> efi_type = EfiBootServicesCode \<or> efi_type = EfiBootServicesData
         \<or> efi_type = EfiConventionalMemory then 1
      else if efi_type = EfiACPIReclaimMemory then 3
      else if efi_type = EfiACPIMemoryNVS then 4
      else 2)"

text \<open>
  The map buffer is read through the cast \<open>(EFI_MEMORY_DESCRIPTOR *)p\<close>: \<open>mmap p\<close>
  is the descriptor found at byte offset \<open>p\<close> of the buffer.  The cursor \<open>p\<close> and
  \<open>end\<close> are byte offsets from the start of the buffer.  \<open>out\<close> is the filled
  prefix \<open>e820[0 .. count)\<close> of the output array, so \<open>count\<close> is \<open>length out\<close>
  and \<open>e820[count - 1]\<close> is \<open>last out\<close>.  With a stride of zero the C loop can
  spin forever, hence the option-valued loop.
\<close>

definition e820_merges :: "E820Entry list \<Rightarrow> UINT32 \<Rightarrow> UINT64 \<Rightarrow> bool" where
  "e820_merges out t a =
     (0 < length out \<and> type (last out) = t \<and> addr (last out) + size (last out) = a)"

definition e820_step :: "E820Entry list \<Rightarrow> EFI_MEMORY_DESCRIPTOR \<Rightarrow> E820Entry list" where
  "e820_step out md =
     (let t = efi_mem_to_e820_type (Type md);
          a = PhysicalStart md;
          s = NumberOfPages md * 4096
      in if e820_merges out t a
         then butlast out @ [(last out)\<lparr>size := size (last out) + s\<rparr>]
         else out @ [\<lparr>addr = a, size = s, type = t\<rparr>])"

partial_function (option) e820_loop ::
  "(nat \<Rightarrow> EFI_MEMORY_DESCRIPTOR) \<Rightarrow> nat \<Rightarrow> nat \<Rightarrow> nat \<Rightarrow> nat \<Rightarrow> E820Entry list
     \<Rightarrow> E820Entry list option" where
  "e820_loop mmap end desc_size max_entries p out =
     (if p < end \<and> length out < max_entries
      then e820_loop mmap end desc_size max_entries (p + desc_size) (e820_step out (mmap p))
      else Some out)"

definition sb_efi_memmap_to_e820 ::
  "(nat \<Rightarrow> EFI_MEMORY_DESCRIPTOR) \<Rightarrow> nat \<Rightarrow> nat \<Rightarrow> nat \<Rightarrow> E820Entry list option" where
  "sb_efi_memmap_to_e820 mmap mmap_size desc_size max_entries =
     e820_loop mmap mmap_size desc_size max_entries 0 []"

text \<open>
  The conversion in the words of the specification: the descriptors met when walking the
  map with the stride, each mapped to its E820 kind, coalesced with the previous output
  entry when the kinds agree and the ranges abut, stopping at the output capacity.
\<close>

definition e820_kind_spec :: "UINT32 \<Rightarrow> UINT32" where
  "e820_kind_spec t =
     (if t \<in> {EfiLoaderCode, EfiLoaderData, EfiBootServicesCode, EfiBootServicesData,
              EfiConventionalMemory} then 1
      else if t = EfiACPIReclaimMemory then 3
      else if t = EfiACPIMemoryNVS then 4
      else 2)"

definition descriptors_spec ::
  "(nat \<Rightarrow> EFI_MEMORY_DESCRIPTOR) \<Rightarrow> nat \<Rightarrow> nat \<Rightarrow> EFI_MEMORY_DESCRIPTOR list" where
  "descriptors_spec mmap mmap_size desc_size =
     map (\<lambda>k. mmap (k * desc_size)) [0 ..< (mmap_size + desc_size - 1) div desc_size]"

fun e820_coalesce_spec ::
  "nat \<Rightarrow> E820Entry list \<Rightarrow> EFI_MEMORY_DESCRIPTOR list \<Rightarrow> E820Entry list" where
  "e820_coalesce_spec cap out [] = out"
| "e820_coalesce_spec cap out (d # ds) =
     (if cap \<le> length out then out
      else if out \<noteq> [] \<and> type (last out) = e820_kind_spec (Type d)
              \<and> addr (last out) + size (last out) = PhysicalStart d
      then e820_coalesce_spec cap
             (butlast out @ [(last out)\<lparr>size := size (last out) + NumberOfPages d * 4096\<rparr>]) ds
      else e820_coalesce_spec cap
             (out @ [\<lparr>addr = PhysicalStart d, size = NumberOfPages d * 4096,
                      type = e820_kind_spec (Type d)\<rparr>]) ds)"

text \<open>
  The firmware map of the specification's scenario, laid out with stride \<open>desc_size\<close>:
  one page of loader code at 0, two pages of loader data at 0x1000, one page of ACPI
  reclaim memory at 0x4000.
\<close>

definition example_mmap :: "nat \<Rightarrow> nat \<Rightarrow> EFI_MEMORY_DESCRIPTOR" where
  "example_mmap desc_size p =
     (if p = 0 then
        \<lparr>Type = EfiLoaderCode, PhysicalStart = 0x0, VirtualStart = 0,
         NumberOfPages = 1, Attribute = 0\<rparr>
      else if p = desc_size then
        \<lparr>Type = EfiLoaderData, PhysicalStart = 0x1000, VirtualStart = 0,
         NumberOfPages = 2, Attribute = 0\<rparr>
      else
        \<lparr>Type = EfiACPIReclaimMemory, PhysicalStart = 0x4000, VirtualStart = 0,
         NumberOfPages = 1, Attribute = 0\<rparr>)"

text \<open>
  A map of 129 descriptors of one page each, 48 bytes apart, the page of descriptor \<open>k\<close> at
  \<open>k * 0x1000\<close>.  The kinds of the first 128 alternate between RAM and ACPI reclaim, so
  none of them merges into its predecessor; the last one is ACPI reclaim memory next to
  the page of descriptor 127, which is ACPI reclaim memory too.  \<open>capacity_entry k\<close> is
  the E820 entry of descriptor \<open>k\<close> alone.
\<close>

definition capacity_mmap :: "nat \<Rightarrow> EFI_MEMORY_DESCRIPTOR" where
  "capacity_mmap p =
     (let k = p div 48
      in \<lparr>Type = (if k < 128 \<and> even k then EfiConventionalMemory else EfiACPIReclaimMemory),
          PhysicalStart = of_nat k * 0x1000, VirtualStart = 0,
          NumberOfPages = 1, Attribute = 0\<rparr>)"

definition capacity_entry :: "nat \<Rightarrow> E820Entry" where
  "capacity_entry k =
     \<lparr>addr = of_nat k * 0x1000, size = 0x1000, type = (if even k then 1 else 3)\<rparr>"

text \<open>A map whose descriptors all describe zero pages of conventional memory at 0.\<close>

definition zero_page_mmap :: "nat \<Rightarrow> EFI_MEMORY_DESCRIPTOR" where
  "zero_page_mmap p =
     \<lparr>Type = EfiConventionalMemory, PhysicalStart = 0, VirtualStart = 0,
      NumberOfPages = 0, Attribute = 0\<rparr>"


section \<open>Packed structure layouts (boot/loader.h)\<close>

text \<open>
  Under \<open>#pragma pack(1)\<close> a structure is the concatenation of its members: a member
  is described by its name and its size in bytes, the offset of a member is the sum of
  the sizes before it, and the size of the structure is the sum of all sizes.  Memory is
  a list of bytes; multi-byte members are little-endian.
\<close>

type_synonym byte = "8 word"
type_synonym field = "string \<times> nat"

fun sizeof_fields :: "field list \<Rightarrow> nat" where
  "sizeof_fields [] = 0"
| "sizeof_fields ((n, s) # fs) = s + sizeof_fields fs"

fun offsetof :: "field list \<Rightarrow> string \<Rightarrow> nat" where
  "offsetof [] name = 0"
| "offsetof ((n, s) # fs) name = (if n = name then 0 else s + offsetof fs name)"

definition LinuxSetupHeader :: "field list" where
  "LinuxSetupHeader =
     [(''setup_sects'', 1), (''root_flags'', 2), (''syssize'', 4), (''ram_size'', 2),
      (''vid_mode'', 2), (''root_dev'', 2), (''boot_flag'', 2), (''jump'', 2),
      (''header'', 4), (''version'', 2), (''realmode_swtch'', 4), (''start_sys_seg'', 2),
      (''kernel_version'', 2), (''type_of_loader'', 1), (''loadflags'', 1),
      (''setup_move_size'', 2), (''code32_start'', 4), (''ramdisk_image'', 4),
      (''ramdisk_size'', 4), (''bootsect_kludge'', 4), (''heap_end_ptr'', 2),
      (''ext_loader_ver'', 1), (''ext_loader_type'', 1), (''cmd_line_ptr'', 4),
      (''initrd_addr_max'', 4), (''kernel_alignment'', 4), (''relocatable_kernel'', 1),
      (''min_alignment'', 1), (''xloadflags'', 2), (''cmdline_size'', 4),
      (''hardware_subarch'', 4), (''hardware_subarch_data'', 8), (''payload_offset'', 4),
      (''payload_length'', 4), (''setup_data'', 8), (''pref_address'', 8),
      (''init_size'', 4), (''handover_offset'', 4)]"

definition LinuxBootParams :: "field list" where
  "LinuxBootParams =
     [(''screen_info'', 64),
      (''_pad1'', 0x1C0 - 64),
      (''e820_entries'', 1),
      (''_pad2'', 0x1F1 - 0x1E9),
      (''hdr'', sizeof_fields LinuxSetupHeader),
      (''_pad3'', 4096 - 0x1F1 - sizeof_fields LinuxSetupHeader)]"

definition E820Entry_layout :: "field list" where
  "E820Entry_layout = [(''addr'', 8), (''size'', 8), (''type'', 4)]"

definition byte_at :: "byte list \<Rightarrow> nat \<Rightarrow> byte" where
  "byte_at m i = (if i < length m then m ! i else 0)"

definition rd16 :: "byte list \<Rightarrow> nat \<Rightarrow> UINT16" where
  "rd16 m off = ucast (byte_at m off) OR push_bit 8 (ucast (byte_at m (off + 1)))"

definition rd32 :: "byte list \<Rightarrow> nat \<Rightarrow> UINT32" where
  "rd32 m off =
     ucast (byte_at m off) OR push_bit 8 (ucast (byte_at m (off + 1)))
       OR push_bit 16 (ucast (byte_at m (off + 2))) OR push_bit 24 (ucast (byte_at m (off + 3)))"

definition rd64 :: "byte list \<Rightarrow> nat \<Rightarrow> UINT64" where
  "rd64 m off = ucast (rd32 m off) OR push_bit 32 (ucast (rd32 m (off + 4)))"

definition le_bytes :: "nat \<Rightarrow> 'a::len word \<Rightarrow> byte list" where
  "le_bytes n w = map (\<lambda>i. ucast (drop_bit (8 * i) w)) [0 ..< n]"

text \<open>\<open>CopyMem (m + off, bs, length bs)\<close>.\<close>

definition write_bytes :: "byte list \<Rightarrow> nat \<Rightarrow> byte list \<Rightarrow> byte list" where
  "write_bytes m off bs = take off m @ bs @ drop (off + length bs) m"

definition E820Entry_bytes :: "E820Entry \<Rightarrow> byte list" where
  "E820Entry_bytes e = le_bytes 8 (addr e) @ le_bytes 8 (size e) @ le_bytes 4 (type e)"

section \<open>Linux loader (boot/linux.c)\<close>

text \<open>
  The kernel image is the list of bytes at \<open>kernel_buf\<close>; \<open>hdr\<close> is the pointer
  \<open>kernel_buf + 0x1F1\<close> cast to the packed setup header, so a member of \<open>hdr\<close> is
  read at \<open>0x1F1\<close> plus its offset in \<open>LinuxSetupHeader\<close>.  The zero page \<open>bp\<close>
  is the list of \<open>sizeof (LinuxBootParams)\<close> bytes that \<open>AllocateZeroPool\<close>
  returns; a member of \<open>bp\<close> is written at its offset in \<open>LinuxBootParams\<close>.
\<close>

definition hdr_off :: "string \<Rightarrow> nat" where
  "hdr_off name = 0x1F1 + offsetof LinuxSetupHeader name"

definition bp_hdr_off :: "string \<Rightarrow> nat" where
  "bp_hdr_off name = offsetof LinuxBootParams ''hdr'' + offsetof LinuxSetupHeader name"

definition SUPERBOOT_LOADER_ID :: UINT8 where
  "SUPERBOOT_LOADER_ID = 0xFF"

definition LINUX_CAN_USE_HEAP :: UINT8 where
  "LINUX_CAN_USE_HEAP = 0x80"

text \<open>
  The boot services the loader calls, over a firmware state \<open>'f\<close>.  \<open>AllocatePool\<close>
  stands for the library's \<open>AllocatePool\<close> and \<open>AllocateZeroPool\<close> (a null pointer
  is 0).  \<open>GetMemoryMap\<close> receives the buffer size and whether a buffer was passed, and
  answers with the values it leaves in the caller's variables (sizes are counted in
  bytes, as natural numbers).  Every call is logged, in order, in a trace;
  \<open>GetMemoryMap\<close> and \<open>ExitBootServices\<close> are logged with the status they returned.
\<close>

datatype EFI_ALLOCATE_TYPE = AllocateAnyPages | AllocateMaxAddress | AllocateAddress

record memory_map_reply =
  mm_status :: EFI_STATUS
  mm_size :: nat
  mm_map :: "nat \<Rightarrow> EFI_MEMORY_DESCRIPTOR"
  mm_key :: UINTN
  mm_desc_size :: nat

record 'f EFI_BOOT_SERVICES =
  AllocatePool :: "UINTN \<Rightarrow> 'f \<Rightarrow> UINT64 \<times> 'f"
  AllocatePages :: "EFI_ALLOCATE_TYPE \<Rightarrow> UINTN \<Rightarrow> UINT64 \<Rightarrow> 'f \<Rightarrow> (EFI_STATUS \<times> UINT64) \<times> 'f"
  GetMemoryMap :: "nat \<Rightarrow> bool \<Rightarrow> 'f \<Rightarrow> memory_map_reply \<times> 'f"
  ExitBootServices :: "UINTN \<Rightarrow> 'f \<Rightarrow> EFI_STATUS \<times> 'f"

datatype fw_call =
    CallAllocatePool UINTN
  | CallAllocatePages EFI_ALLOCATE_TYPE UINTN UINT64
  | CallGetMemoryMap nat bool EFI_STATUS
  | CallExitBootServices UINTN EFI_STATUS

type_synonym 'f fw_state = "'f \<times> fw_call list"

definition do_AllocatePool ::
  "'f EFI_BOOT_SERVICES \<Rightarrow> UINTN \<Rightarrow> 'f fw_state \<Rightarrow> UINT64 \<times> 'f fw_state" where
  "do_AllocatePool bs n st =
     (let (r, f') = AllocatePool bs n (fst st) in (r, (f', snd st @ [CallAllocatePool n])))"

definition do_AllocatePages ::
  "'f EFI_BOOT_SERVICES \<Rightarrow> EFI_ALLOCATE_TYPE \<Rightarrow> UINTN \<Rightarrow> UINT64 \<Rightarrow> 'f fw_state
     \<Rightarrow> (EFI_STATUS \<times> UINT64) \<times> 'f fw_state" where
  "do_AllocatePages bs t pages a st =
     (let (r, f') = AllocatePages bs t pages a (fst st)
      in (r, (f', snd st @ [CallAllocatePages t pages a])))"

definition do_GetMemoryMap ::
  "'f EFI_BOOT_SERVICES \<Rightarrow> nat \<Rightarrow> bool \<Rightarrow> 'f fw_state \<Rightarrow> memory_map_reply \<times> 'f fw_state" where
  "do_GetMemoryMap bs sz buf st =
     (let (r, f') = GetMemoryMap bs sz buf (fst st)
      in (r, (f', snd st @ [CallGetMemoryMap sz buf (mm_status r)])))"

definition do_ExitBootServices ::
  "'f EFI_BOOT_SERVICES \<Rightarrow> UINTN \<Rightarrow> 'f fw_state \<Rightarrow> EFI_STATUS \<times> 'f fw_state" where
  "do_ExitBootServices bs key st =
     (let (r, f') = ExitBootServices bs key (fst st)
      in (r, (f', snd st @ [CallExitBootServices key r])))"

text \<open>
  How a boot path ends: it returns a status to its caller, or it transfers control to an
  address with the zero page as argument (the calls \<open>handover (...)\<close> and
  \<open>entry (bp, NULL)\<close>, which do not come back).
\<close>

datatype boot_outcome = Returned EFI_STATUS | Jumped UINT64 "byte list"

definition sb_strlen8 :: "string \<Rightarrow> nat" where
  "sb_strlen8 a = length a"

text \<open>The setup size both paths compute from \<open>hdr->setup_sects\<close>.\<close>

definition setup_size_of :: "byte list \<Rightarrow> UINTN" where
  "setup_size_of kernel_image =
     (let setup_sects = (ucast (byte_at kernel_image (hdr_off ''setup_sects'')) :: UINTN);
          setup_sects = (if setup_sects = 0 then 4 else setup_sects)
      in (setup_sects + 1) * 512)"

text \<open>
  The zero-page preparation common to both paths: copy the setup header, set the loader
  identity, the heap flag and the heap end.
\<close>

definition bp_init :: "byte list \<Rightarrow> byte list" where
  "bp_init kernel_image =
     (let bp = replicate (sizeof_fields LinuxBootParams) 0;
          bp = write_bytes bp (offsetof LinuxBootParams ''hdr'')
                 (map (byte_at kernel_image) [0x1F1 ..< 0x1F1 + sizeof_fields LinuxSetupHeader]);
          bp = write_bytes bp (bp_hdr_off ''type_of_loader'') [SUPERBOOT_LOADER_ID];
          bp = write_bytes bp (bp_hdr_off ''loadflags'')
                 [byte_at bp (bp_hdr_off ''loadflags'') OR LINUX_CAN_USE_HEAP]
      in write_bytes bp (bp_hdr_off ''heap_end_ptr'') (le_bytes 2 (0xFE00 :: UINT16)))"

definition bp_cmdline_initrd ::
  "'f EFI_BOOT_SERVICES \<Rightarrow> string \<Rightarrow> UINT64 \<Rightarrow> UINTN \<Rightarrow> byte list \<Rightarrow> 'f fw_state
     \<Rightarrow> byte list \<times> 'f fw_state" where
  "bp_cmdline_initrd bs target_cmdline initrd_addr initrd_size bp st =
     (let cmdline_len = sb_strlen8 target_cmdline;
          (cmdline, st) = do_AllocatePool bs (of_nat cmdline_len + 1) st;
          bp = (if cmdline \<noteq> 0
                then write_bytes bp (bp_hdr_off ''cmd_line_ptr'')
                       (le_bytes 4 (ucast cmdline :: UINT32))
                else bp);
          bp = write_bytes bp (bp_hdr_off ''ramdisk_image'')
                 (le_bytes 4 (ucast initrd_addr :: UINT32));
          bp = write_bytes bp (bp_hdr_off ''ramdisk_size'')
                 (le_bytes 4 (ucast initrd_size :: UINT32))
      in (bp, st))"

definition boot_efi_handover ::
  "'f EFI_BOOT_SERVICES \<Rightarrow> string \<Rightarrow> UINT64 \<Rightarrow> byte list \<Rightarrow> UINT64 \<Rightarrow> UINTN \<Rightarrow> 'f fw_state
     \<Rightarrow> boot_outcome \<times> 'f fw_state" where
  "boot_efi_handover bs target_cmdline kernel_buf kernel_image initrd_addr initrd_size st =
     (if rd32 kernel_image (hdr_off ''handover_offset'') = 0 then (Returned EFI_UNSUPPORTED, st)
      else
        let setup_size = setup_size_of kernel_image;
            (bp_ptr, st) = do_AllocatePool bs (of_nat (sizeof_fields LinuxBootParams)) st
        in if bp_ptr = 0 then (Returned EFI_OUT_OF_RESOURCES, st)
           else
             let bp = bp_init kernel_image;
                 (bp, st) = bp_cmdline_initrd bs target_cmdline initrd_addr initrd_size bp st;
                 kernel_base = kernel_buf + setup_size;
                 handover = kernel_base + ucast (rd32 kernel_image (hdr_off ''handover_offset'')) + 512
             in (Jumped handover bp, st))"

text \<open>
  The setup size in the words of the specification: \<open>(max (setup_sects, 4) + 1) \<times> 512\<close>.
\<close>

definition setup_size_spec :: "UINT8 \<Rightarrow> UINTN" where
  "setup_size_spec setup_sects = (max (ucast setup_sects) 4 + 1) * 512"

text \<open>
  The legacy path, in the order of the C function.  \<open>legacy_alloc_kernel\<close> is the
  allocation of the kernel's destination with its fallback for relocatable kernels;
  \<open>legacy_exit_boot_services\<close> is the block from the first \<open>ExitBootServices\<close> to
  the point of no return, and yields the final value of \<open>status\<close>;
  \<open>legacy_memory_map_and_exit\<close> is the second half of the function, from the capture
  of the memory map to the jump.  The copy of the protected-mode code to
  physical memory is outside the model.  The E820 conversion may not return (a stride of
  zero), so the path is option-valued.
\<close>

definition legacy_alloc_kernel ::
  "'f EFI_BOOT_SERVICES \<Rightarrow> byte list \<Rightarrow> UINTN \<Rightarrow> UINT64 \<Rightarrow> 'f fw_state
     \<Rightarrow> (EFI_STATUS \<times> UINT64) \<times> 'f fw_state" where
  "legacy_alloc_kernel bs kernel_image kernel_pages kernel_addr st =
     (let ((status, kernel_addr), st) =
            do_AllocatePages bs AllocateAddress kernel_pages kernel_addr st
      in if EFI_ERROR status
         then (if byte_at kernel_image (hdr_off ''relocatable_kernel'') \<noteq> 0
               then do_AllocatePages bs AllocateAnyPages kernel_pages kernel_addr st
               else ((status, kernel_addr), st))
         else ((status, kernel_addr), st))"

definition legacy_exit_boot_services ::
  "'f EFI_BOOT_SERVICES \<Rightarrow> UINTN \<Rightarrow> 'f fw_state \<Rightarrow> EFI_STATUS \<times> 'f fw_state" where
  "legacy_exit_boot_services bs map_key st =
     (let (status, st) = do_ExitBootServices bs map_key st
      in if EFI_ERROR status
         then
           let (r1, st) = do_GetMemoryMap bs 0 False st;
               mmap_size = mm_size r1 + mm_desc_size r1 * 4;
               (r2, st) = do_GetMemoryMap bs mmap_size True st;
               status = mm_status r2
           in if \<not> EFI_ERROR status
              then do_ExitBootServices bs (mm_key r2) st
              else (status, st)
         else (status, st))"

definition legacy_memory_map_and_exit ::
  "'f EFI_BOOT_SERVICES \<Rightarrow> UINT64 \<Rightarrow> byte list \<Rightarrow> 'f fw_state
     \<Rightarrow> (boot_outcome \<times> 'f fw_state) option" where
  "legacy_memory_map_and_exit bs kernel_addr bp st =
     (let (r0, st) = do_GetMemoryMap bs 0 False st;
          mmap_size = mm_size r0 + mm_desc_size r0 * 4;
          (mmap, st) = do_AllocatePool bs (of_nat mmap_size) st
      in if mmap = 0 then Some (Returned EFI_OUT_OF_RESOURCES, st)
         else
           let (r, st) = do_GetMemoryMap bs mmap_size True st
           in if EFI_ERROR (mm_status r) then Some (Returned (mm_status r), st)
              else
                (case sb_efi_memmap_to_e820 (mm_map r) (mm_size r) (mm_desc_size r) 128 of
                   None \<Rightarrow> None
                 | Some e820 \<Rightarrow>
                     let bp = write_bytes bp (offsetof LinuxBootParams ''e820_entries'')
                                [of_nat (length e820)];
                         bp = write_bytes bp 0x2D0 (concat (map E820Entry_bytes e820));
                         (status, st) = legacy_exit_boot_services bs (mm_key r) st
                     in if EFI_ERROR status then Some (Returned status, st)
                        else Some (Jumped kernel_addr bp, st)))"

definition boot_legacy_bzimage ::
  "'f EFI_BOOT_SERVICES \<Rightarrow> string \<Rightarrow> UINT64 \<Rightarrow> byte list \<Rightarrow> UINTN \<Rightarrow> UINT64 \<Rightarrow> UINTN
     \<Rightarrow> 'f fw_state \<Rightarrow> (boot_outcome \<times> 'f fw_state) option" where
  "boot_legacy_bzimage bs target_cmdline kernel_buf kernel_image kernel_size
       initrd_addr initrd_size st =
     (let setup_size = setup_size_of kernel_image;
          kernel_raw_size = kernel_size - setup_size;
          (bp_ptr, st) = do_AllocatePool bs (of_nat (sizeof_fields LinuxBootParams)) st
      in if bp_ptr = 0 then Some (Returned EFI_OUT_OF_RESOURCES, st)
         else
           let bp = bp_init kernel_image;
               kernel_addr = rd64 kernel_image (hdr_off ''pref_address'');
               kernel_addr = (if kernel_addr = 0 then 0x100000 else kernel_addr);
               kernel_pages = (kernel_raw_size + 4095) div 4096;
               ((status, kernel_addr), st) =
                  legacy_alloc_kernel bs kernel_image kernel_pages kernel_addr st
           in if EFI_ERROR status then Some (Returned status, st)
              else
                let bp = write_bytes bp (bp_hdr_off ''code32_start'')
                           (le_bytes 4 (ucast kernel_addr :: UINT32));
                    (bp, st) = bp_cmdline_initrd bs target_cmdline initrd_addr initrd_size bp st
                in legacy_memory_map_and_exit bs kernel_addr bp st)"

text \<open>
  A bzImage for the concrete runs: 4096 bytes, zero but for \<open>setup_sects\<close> at
  \<open>0x1F1\<close>, the magic \<open>HdrS\<close> at \<open>0x202\<close>, the protocol version \<open>0x020B\<close> at
  \<open>0x206\<close> and the handover offset at \<open>0x264\<close>.
\<close>

definition test_kernel :: "UINT8 \<Rightarrow> UINT32 \<Rightarrow> byte list" where
  "test_kernel setup_sects handover_offset =
     replicate 0x1F1 0 @ [setup_sects] @ replicate 16 0 @ [0x48, 0x64, 0x72, 0x53]
       @ [0x0B, 0x02] @ replicate 92 0 @ le_bytes 4 handover_offset @ replicate 0xD98 0"

text \<open>
  A firmware for the concrete runs.  Its state counts the calls of \<open>GetMemoryMap\<close> and
  of \<open>ExitBootServices\<close> made so far: the first \<open>gmm_ok\<close> calls of \<open>GetMemoryMap\<close>
  succeed and the later ones fail, the first \<open>ebs_fail\<close> calls of
  \<open>ExitBootServices\<close> fail and the later ones succeed.  Allocations succeed.
\<close>

definition test_firmware :: "nat \<Rightarrow> nat \<Rightarrow> (nat \<times> nat) EFI_BOOT_SERVICES" where
  "test_firmware gmm_ok ebs_fail =
     \<lparr>AllocatePool = (\<lambda>n f. (0x2000000, f)),
      AllocatePages = (\<lambda>t pages a f. ((EFI_SUCCESS, a), f)),
      GetMemoryMap = (\<lambda>sz buf f.
         (\<lparr>mm_status = (if fst f < gmm_ok then EFI_SUCCESS else EFI_INVALID_PARAMETER),
           mm_size = 144, mm_map = example_mmap 48, mm_key = of_nat (fst f),
           mm_desc_size = 48\<rparr>,
          (Suc (fst f), snd f))),
      ExitBootServices = (\<lambda>key f.
         ((if snd f < ebs_fail then EFI_INVALID_PARAMETER else EFI_SUCCESS),
          (fst f, Suc (snd f))))\<rparr>"

definition is_ExitBootServices :: "fw_call \<Rightarrow> bool" where
  "is_ExitBootServices e = (case e of CallExitBootServices k s \<Rightarrow> True | _ \<Rightarrow> False)"

definition is_allocation :: "fw_call \<Rightarrow> bool" where
  "is_allocation e =
     (case e of CallAllocatePool n \<Rightarrow> True | CallAllocatePages t n a \<Rightarrow> True | _ \<Rightarrow> False)"

definition jump_target :: "boot_outcome \<Rightarrow> UINT64 option" where
  "jump_target out = (case out of Jumped a bp \<Rightarrow> Some a | Returned s \<Rightarrow> None)"

text \<open>
  The calls of a trace from the first call of \<open>ExitBootServices\<close> on.
\<close>

definition calls_from_exit :: "fw_call list \<Rightarrow> fw_call list" where
  "calls_from_exit evs = dropWhile (\<lambda>e. \<not> is_ExitBootServices e) evs"

text \<open>
  Shapes of traces, used to state what the legacy path may do: \<open>no_exit_calls\<close> holds of
  calls before the first \<open>ExitBootServices\<close>; \<open>exit_block_shape post status\<close> lists
  the three ways the exit block can run, with the status it ends on; \<open>legacy_shape\<close>
  puts a prefix without exit calls before them.
\<close>

definition no_exit_calls :: "fw_call list \<Rightarrow> bool" where
  "no_exit_calls evs = (\<forall>e \<in> set evs. \<not> is_ExitBootServices e)"

definition exit_block_shape :: "fw_call list \<Rightarrow> EFI_STATUS \<Rightarrow> bool" where
  "exit_block_shape post status =
     ((\<exists>k. post = [CallExitBootServices k status] \<and> \<not> EFI_ERROR status)
      \<or> (\<exists>k s n g1. post = [CallExitBootServices k s, CallGetMemoryMap 0 False g1,
                              CallGetMemoryMap n True status]
             \<and> EFI_ERROR s \<and> EFI_ERROR status)
      \<or> (\<exists>k s n g1 g2 k2. post = [CallExitBootServices k s, CallGetMemoryMap 0 False g1,
                              CallGetMemoryMap n True g2, CallExitBootServices k2 status]
             \<and> EFI_ERROR s \<and> \<not> EFI_ERROR g2))"

definition legacy_shape :: "fw_call list \<Rightarrow> boot_outcome \<Rightarrow> bool" where
  "legacy_shape evs outcome =
     (\<exists>pre post. evs = pre @ post \<and> no_exit_calls pre
        \<and> ((post = [] \<and> (\<exists>s. outcome = Returned s))
           \<or> (\<exists>status. exit_block_shape post status
                 \<and> (if EFI_ERROR status then outcome = Returned status
                      else (\<exists>a bp. outcome = Jumped a bp)))))"

section \<open>VFS dispatch (fs/vfs.c)\<close>

text \<open>
  The firmware protocols a filesystem driver reads a device through.  A read answers with
  its status and the bytes it left in the caller's buffer.  \<open>MediaId\<close> and \<open>BlockSize\<close>
  are the members of \<open>block_io->Media\<close>.
\<close>

type_synonym EFI_HANDLE = UINT64

record EFI_BLOCK_IO_PROTOCOL =
  MediaId :: UINT32
  BlockSize :: UINT32
  ReadBlocks :: "UINT32 \<Rightarrow> UINT64 \<Rightarrow> nat \<Rightarrow> EFI_STATUS \<times> byte list"

record EFI_DISK_IO_PROTOCOL =
  ReadDisk :: "UINT32 \<Rightarrow> UINT64 \<Rightarrow> nat \<Rightarrow> EFI_STATUS \<times> byte list"

text \<open>
  The driver vtable.  \<open>'c\<close> is the opaque \<open>fs_context\<close>; a null pointer is \<open>None\<close>.
  \<open>sb_vfs_open_device\<close> tests \<open>probe\<close> against null before calling it.
\<close>

record 'c VfsDriver =
  name :: "UINT16 list"
  probe :: "(EFI_BLOCK_IO_PROTOCOL \<Rightarrow> EFI_DISK_IO_PROTOCOL option \<Rightarrow> EFI_STATUS) option"
  mount :: "EFI_BLOCK_IO_PROTOCOL \<Rightarrow> EFI_DISK_IO_PROTOCOL option \<Rightarrow> EFI_STATUS \<times> 'c option"

record 'c VfsMount =
  device :: EFI_HANDLE
  is_native :: bool
  driver :: "'c VfsDriver option"
  fs_context :: "'c option"

text \<open>
  The mount table: the static array \<open>mounts\<close> of \<open>VFS_MAX_MOUNTS\<close> slots and
  \<open>mount_count\<close>.
\<close>

record 'c vfs_state =
  mounts :: "'c VfsMount list"
  mount_count :: nat

definition VFS_MAX_MOUNTS :: nat where
  "VFS_MAX_MOUNTS = 64"

definition vfs_wf :: "'c vfs_state \<Rightarrow> bool" where
  "vfs_wf st = (length (mounts st) = VFS_MAX_MOUNTS \<and> mount_count st \<le> VFS_MAX_MOUNTS)"

text \<open>
  What \<open>gBS->HandleProtocol\<close> answers for a device and each of the three protocols the
  dispatcher asks for.
\<close>

record handle_database =
  simple_file_system :: "EFI_HANDLE \<Rightarrow> EFI_STATUS"
  block_io_protocol :: "EFI_HANDLE \<Rightarrow> EFI_STATUS \<times> EFI_BLOCK_IO_PROTOCOL"
  disk_io_protocol :: "EFI_HANDLE \<Rightarrow> EFI_STATUS \<times> EFI_DISK_IO_PROTOCOL"

text \<open>\<open>find_mount\<close> returns the index of the slot it would return a pointer to.\<close>

function find_mount_from :: "'c vfs_state \<Rightarrow> EFI_HANDLE \<Rightarrow> nat \<Rightarrow> nat option" where
  "find_mount_from st dev i =
     (if i < mount_count st
      then (if device (mounts st ! i) = dev then Some i else find_mount_from st dev (Suc i))
      else None)"
  by pat_completeness auto
termination
  by (relation "measure (\<lambda>(st, dev, i). mount_count st - i)") auto

declare find_mount_from.simps [simp del]

definition find_mount :: "'c vfs_state \<Rightarrow> EFI_HANDLE \<Rightarrow> nat option" where
  "find_mount st dev = find_mount_from st dev 0"

text \<open>The slot after \<open>SetMem (m, sizeof (*m), 0)\<close>.\<close>

definition zero_mount :: "'c VfsMount" where
  "zero_mount = \<lparr>device = 0, is_native = False, driver = None, fs_context = None\<rparr>"

text \<open>
  The loop over \<open>builtin_drivers\<close>; \<open>mi\<close> is the index of the slot \<open>m\<close> points to.
\<close>

fun probe_builtin_drivers ::
  "'c VfsDriver list \<Rightarrow> EFI_BLOCK_IO_PROTOCOL \<Rightarrow> EFI_DISK_IO_PROTOCOL option \<Rightarrow> nat
     \<Rightarrow> 'c vfs_state \<Rightarrow> EFI_STATUS \<times> 'c vfs_state" where
  "probe_builtin_drivers [] block_io disk_io mi st = (EFI_UNSUPPORTED, st)"
| "probe_builtin_drivers (drv # rest) block_io disk_io mi st =
     (case probe drv of
        None \<Rightarrow> probe_builtin_drivers rest block_io disk_io mi st
      | Some pr \<Rightarrow>
          if \<not> EFI_ERROR (pr block_io disk_io)
          then
            let (status, ctx) = mount drv block_io disk_io
            in if \<not> EFI_ERROR status
               then (EFI_SUCCESS,
                     st\<lparr>mounts := (mounts st)[mi := (mounts st ! mi)
                           \<lparr>is_native := False, driver := Some drv, fs_context := ctx\<rparr>],
                        mount_count := mount_count st + 1\<rparr>)
               else probe_builtin_drivers rest block_io disk_io mi st
          else probe_builtin_drivers rest block_io disk_io mi st)"

definition sb_vfs_open_device ::
  "handle_database \<Rightarrow> 'c VfsDriver list \<Rightarrow> EFI_HANDLE \<Rightarrow> 'c vfs_state
     \<Rightarrow> EFI_STATUS \<times> 'c vfs_state" where
  "sb_vfs_open_device gBS builtin_drivers dev st =
     (if find_mount st dev \<noteq> None then (EFI_SUCCESS, st)
      else if mount_count st \<ge> VFS_MAX_MOUNTS then (EFI_OUT_OF_RESOURCES, st)
      else
        let mi = mount_count st;
            st = st\<lparr>mounts := (mounts st)[mi := zero_mount\<lparr>device := dev\<rparr>]\<rparr>;
            status = simple_file_system gBS dev
        in if \<not> EFI_ERROR status
           then (EFI_SUCCESS,
                 st\<lparr>mounts := (mounts st)[mi := (mounts st ! mi)\<lparr>is_native := True\<rparr>],
                    mount_count := mount_count st + 1\<rparr>)
           else
             let (status, block_io) = block_io_protocol gBS dev
             in if EFI_ERROR status then (status, st)
                else
                  let (status, disk_io) = disk_io_protocol gBS dev;
                      disk_io = (if EFI_ERROR status then None else Some disk_io)
                  in probe_builtin_drivers builtin_drivers block_io disk_io mi st)"

text \<open>The entries of the table in use that are keyed by a device.\<close>

definition entries_keyed_by :: "'c vfs_state \<Rightarrow> EFI_HANDLE \<Rightarrow> 'c VfsMount list" where
  "entries_keyed_by st dev = filter (\<lambda>m. device m = dev) (take (mount_count st) (mounts st))"

text \<open>
  Concrete data for the runs: an empty mount table; a device on which the firmware offers
  Block I/O alone; a driver that, like the BTRFS one, recognises the partition and whose
  \<open>mount\<close> answers \<open>EFI_UNSUPPORTED\<close>; and a device with a native file system.
\<close>

definition empty_table :: "unit vfs_state" where
  "empty_table = \<lparr>mounts = replicate 64 zero_mount, mount_count = 0\<rparr>"

definition null_block_io :: EFI_BLOCK_IO_PROTOCOL where
  "null_block_io = \<lparr>MediaId = 0, BlockSize = 512,
     ReadBlocks = (\<lambda>mid lba n. (EFI_SUCCESS, replicate n 0))\<rparr>"

definition block_only_handles :: handle_database where
  "block_only_handles =
     \<lparr>simple_file_system = (\<lambda>h. EFI_UNSUPPORTED),
      block_io_protocol = (\<lambda>h. (EFI_SUCCESS, null_block_io)),
      disk_io_protocol = (\<lambda>h. (EFI_UNSUPPORTED, \<lparr>ReadDisk = (\<lambda>mid off n. (EFI_UNSUPPORTED, []))\<rparr>))\<rparr>"

definition native_handles :: handle_database where
  "native_handles = block_only_handles\<lparr>simple_file_system := (\<lambda>h. EFI_SUCCESS)\<rparr>"

definition stub_driver :: "unit VfsDriver" where
  "stub_driver = \<lparr>name = [], probe = Some (\<lambda>b d. EFI_SUCCESS),
                  mount = (\<lambda>b d. (EFI_UNSUPPORTED, None))\<rparr>"

text \<open>
  Auxiliary definitions for the proofs about \<open>sb_vfs_open_device\<close>: the driver the
  loop settles on (a function of the environment alone), the three writes to the table
  (the zeroed slot with its device, the commit of a native mount, the commit of a
  built-in mount), and what a call does once the device was not found and the table is
  not full.
\<close>

fun selected_driver ::
  "'c VfsDriver list \<Rightarrow> EFI_BLOCK_IO_PROTOCOL \<Rightarrow> EFI_DISK_IO_PROTOCOL option
     \<Rightarrow> ('c VfsDriver \<times> 'c option) option" where
  "selected_driver [] block_io disk_io = None"
| "selected_driver (drv # rest) block_io disk_io =
     (case probe drv of
        None \<Rightarrow> selected_driver rest block_io disk_io
      | Some pr \<Rightarrow>
          if \<not> EFI_ERROR (pr block_io disk_io) \<and> \<not> EFI_ERROR (fst (mount drv block_io disk_io))
          then Some (drv, snd (mount drv block_io disk_io))
          else selected_driver rest block_io disk_io)"

definition commit_builtin :: "nat \<Rightarrow> 'c VfsDriver \<Rightarrow> 'c option \<Rightarrow> 'c vfs_state \<Rightarrow> 'c vfs_state" where
  "commit_builtin mi drv ctx st =
     st\<lparr>mounts := (mounts st)[mi := (mounts st ! mi)
           \<lparr>is_native := False, driver := Some drv, fs_context := ctx\<rparr>],
        mount_count := mount_count st + 1\<rparr>"

definition scribble :: "'c vfs_state \<Rightarrow> EFI_HANDLE \<Rightarrow> 'c vfs_state" where
  "scribble st dev = st\<lparr>mounts := (mounts st)[mount_count st := zero_mount\<lparr>device := dev\<rparr>]\<rparr>"

definition commit_native :: "nat \<Rightarrow> 'c vfs_state \<Rightarrow> 'c vfs_state" where
  "commit_native mi st =
     st\<lparr>mounts := (mounts st)[mi := (mounts st ! mi)\<lparr>is_native := True\<rparr>],
        mount_count := mount_count st + 1\<rparr>"

definition open_fresh ::
  "handle_database \<Rightarrow> 'c VfsDriver list \<Rightarrow> EFI_HANDLE \<Rightarrow> nat \<Rightarrow> 'c vfs_state
     \<Rightarrow> EFI_STATUS \<times> 'c vfs_state" where
  "open_fresh gBS ds dev mi st0 =
     (if \<not> EFI_ERROR (simple_file_system gBS dev) then (EFI_SUCCESS, commit_native mi st0)
      else if EFI_ERROR (fst (block_io_protocol gBS dev))
      then (fst (block_io_protocol gBS dev), st0)
      else (case selected_driver ds (snd (block_io_protocol gBS dev))
                   (if EFI_ERROR (fst (disk_io_protocol gBS dev)) then None
                    else Some (snd (disk_io_protocol gBS dev))) of
              None \<Rightarrow> (EFI_UNSUPPORTED, st0)
            | Some (drv, ctx) \<Rightarrow> (EFI_SUCCESS, commit_builtin mi drv ctx st0)))"

section \<open>ASCII string utilities (util/string.c)\<close>

text \<open>
  A \<open>CHAR8\<close> string is the list of its characters before the terminating NUL, and a
  \<open>CHAR8 *\<close> cursor into it is the rest of the list; \<open>peek\<close> is \<open>*p\<close>, which reads
  the terminator at the end.  \<open>CHAR8\<close> is unsigned, as the firmware headers declare
  it.  A \<open>CHAR16\<close> string is a list of 16-bit words.
\<close>

type_synonym CHAR16 = UINT16

definition peek :: "string \<Rightarrow> char" where
  "peek p = (case p of [] \<Rightarrow> CHR 0x00 | c # _ \<Rightarrow> c)"

definition peek16 :: "CHAR16 list \<Rightarrow> CHAR16" where
  "peek16 p = (case p of [] \<Rightarrow> 0 | c # _ \<Rightarrow> c)"

fun sb_strcmp8 :: "string \<Rightarrow> string \<Rightarrow> int" where
  "sb_strcmp8 [] [] = 0"
| "sb_strcmp8 [] (b # bs) = 0 - of_char b"
| "sb_strcmp8 (a # as) [] = of_char a"
| "sb_strcmp8 (a # as) (b # bs) = (if a = b then sb_strcmp8 as bs else of_char a - of_char b)"

fun sb_strncmp8 :: "string \<Rightarrow> string \<Rightarrow> nat \<Rightarrow> int" where
  "sb_strncmp8 a b 0 = 0"
| "sb_strncmp8 a b (Suc n) =
     (if peek a \<noteq> peek b \<or> peek a = CHR 0x00 then of_char (peek a) - of_char (peek b)
      else sb_strncmp8 (tl a) (tl b) n)"

fun strstr_loop :: "string \<Rightarrow> string \<Rightarrow> string option" where
  "strstr_loop [] needle = None"
| "strstr_loop (c # haystack) needle =
     (if sb_strncmp8 (c # haystack) needle (sb_strlen8 needle) = 0 then Some (c # haystack)
      else strstr_loop haystack needle)"

definition sb_strstr8 :: "string \<Rightarrow> string \<Rightarrow> string option" where
  "sb_strstr8 haystack needle =
     (if needle = [] then Some haystack else strstr_loop haystack needle)"

text \<open>
  The three copying functions fill \<open>dst\<close> with at most \<open>max - 1\<close> characters of
  \<open>src\<close> and a terminator; the model returns the new contents of \<open>dst\<close>.
\<close>

definition sb_strcpy8 :: "string \<Rightarrow> nat \<Rightarrow> string" where
  "sb_strcpy8 src max' = take (max' - 1) src"

definition sb_str8to16 :: "string \<Rightarrow> nat \<Rightarrow> CHAR16 list" where
  "sb_str8to16 src max' = map of_char (take (max' - 1) src)"


fun sb_skip_whitespace :: "string \<Rightarrow> string" where
  "sb_skip_whitespace [] = []"
| "sb_skip_whitespace (c # p) =
     (if c = CHR '' '' \<or> c = CHR 0x09 then sb_skip_whitespace p else c # p)"

fun sb_next_line :: "string \<Rightarrow> string" where
  "sb_next_line [] = []"
| "sb_next_line (c # p) = (if c = CHR 0x0A then p else sb_next_line p)"

section \<open>The boot-entry model (superboot.h)\<close>

definition SB_MAX_INITRDS :: nat where "SB_MAX_INITRDS = 8"
definition SB_MAX_PATH :: nat where "SB_MAX_PATH = 512"
definition SB_MAX_TITLE :: nat where "SB_MAX_TITLE = 256"
definition SB_MAX_CMDLINE :: nat where "SB_MAX_CMDLINE = 4096"

datatype ConfigType =
  CONFIG_TYPE_UNKNOWN | CONFIG_TYPE_GRUB | CONFIG_TYPE_SYSTEMD_BOOT | CONFIG_TYPE_LIMINE

record BootTarget =
  title :: "CHAR16 list"
  kernel_path :: "CHAR16 list"
  initrd_paths :: "CHAR16 list list"
  initrd_count :: UINT32
  cmdline :: string
  config_path :: "CHAR16 list"
  config_type :: ConfigType
  device_handle :: EFI_HANDLE
  is_chainload :: bool
  efi_path :: "CHAR16 list"
  index :: UINT32
  is_default :: bool

text \<open>A \<open>BootTarget\<close> after \<open>SetMem (cur, sizeof (*cur), 0)\<close>.\<close>

definition zero_target :: BootTarget where
  "zero_target =
     \<lparr>title = [], kernel_path = [], initrd_paths = replicate SB_MAX_INITRDS [],
      initrd_count = 0, cmdline = [], config_path = [], config_type = CONFIG_TYPE_UNKNOWN,
      device_handle = 0, is_chainload = False, efi_path = [], index = 0,
      is_default = False\<rparr>"

section \<open>Limine configuration parser (config/limine.c)\<close>

definition limine_path_to_uefi :: "string \<Rightarrow> nat \<Rightarrow> CHAR16 list" where
  "limine_path_to_uefi src max' =
     (let p = (case sb_strstr8 src ''):'' of Some colon \<Rightarrow> drop 2 colon | None \<Rightarrow> src);
          lead = (if peek p \<noteq> CHR ''/'' \<and> peek p \<noteq> CHR 0x5C \<and> 1 < max'
                  then [0x5C] else [])
      in lead @ map (\<lambda>c. if c = CHR ''/'' then 0x5C else of_char c)
                  (take (max' - 1 - length lead) p))"

text \<open>
  The scanning loops \<open>while (*p && !stop (*p) && i + 1 < sizeof (buf)) buf[i++] = *p++\<close>:
  the token copied into the buffer and the cursor after it.
\<close>

definition scan_token :: "(char \<Rightarrow> bool) \<Rightarrow> nat \<Rightarrow> string \<Rightarrow> string \<times> string" where
  "scan_token stop bufsize p =
     (let tok = take (bufsize - 1) (takeWhile (\<lambda>c. \<not> stop c) p)
      in (tok, drop (length tok) p))"

definition trim_trailing :: "string \<Rightarrow> string" where
  "trim_trailing v = rev (dropWhile (\<lambda>c. c = CHR '' '' \<or> c = CHR 0x09) (rev v))"

text \<open>The chain of key comparisons applied to the current entry.\<close>

definition limine_set_key :: "string \<Rightarrow> string \<Rightarrow> BootTarget \<Rightarrow> BootTarget" where
  "limine_set_key key val t =
     (if sb_strcmp8 key ''kernel_path'' = 0
      then t\<lparr>kernel_path := limine_path_to_uefi val SB_MAX_PATH\<rparr>
      else if sb_strcmp8 key ''kernel_cmdline'' = 0 \<or> sb_strcmp8 key ''cmdline'' = 0
      then t\<lparr>cmdline := sb_strcpy8 val SB_MAX_CMDLINE\<rparr>
      else if sb_strcmp8 key ''module_path'' = 0
      then (if unat (initrd_count t) < SB_MAX_INITRDS
            then t\<lparr>initrd_paths := (initrd_paths t)[unat (initrd_count t) :=
                                      limine_path_to_uefi val SB_MAX_PATH],
                   initrd_count := initrd_count t + 1\<rparr>
            else t)
      else if sb_strcmp8 key ''protocol'' = 0
      then (if sb_strcmp8 val ''chainload'' = 0 then t\<lparr>is_chainload := True\<rparr> else t)
      else if sb_strcmp8 key ''path'' = 0 \<or> sb_strcmp8 key ''image_path'' = 0
      then t\<lparr>efi_path := limine_path_to_uefi val SB_MAX_PATH, is_chainload := True\<rparr>
      else t)"

text \<open>
  The state of the main loop: the cursor \<open>p\<close>, the caller's array \<open>targets\<close>,
  \<open>*count\<close>, the pointer \<open>cur\<close> (the index of the slot it points to, \<open>None\<close> when
  null) and \<open>in_section\<close>.
\<close>

record limine_state =
  ls_p :: string
  ls_targets :: "BootTarget list"
  ls_count :: nat
  ls_cur :: "nat option"
  ls_in_section :: bool

datatype limine_flow = Continue limine_state | Break limine_state

definition accepted :: "BootTarget \<Rightarrow> bool" where
  "accepted t = (peek16 (kernel_path t) \<noteq> 0 \<or> is_chainload t)"

text \<open>One iteration of \<open>while (*p)\<close>, entered with \<open>*p\<close> not the terminator.\<close>

definition limine_step ::
  "EFI_HANDLE \<Rightarrow> CHAR16 list \<Rightarrow> nat \<Rightarrow> limine_state \<Rightarrow> limine_flow" where
  "limine_step dev cfg_path max' s =
     (let p = sb_skip_whitespace (ls_p s)
      in if peek p = CHR 0x0A then Continue (s\<lparr>ls_p := tl p\<rparr>)
         else if peek p = CHR ''#'' then Continue (s\<lparr>ls_p := sb_next_line p\<rparr>)
         else if peek p = CHR ''/'' \<and> \<not> ls_in_section s
         then
           let p = tl p
           in if ls_count s \<ge> max' then Break (s\<lparr>ls_p := p\<rparr>)
              else
                let t = zero_target\<lparr>config_type := CONFIG_TYPE_LIMINE, device_handle := dev,
                          config_path := cfg_path, index := of_nat (ls_count s)\<rparr>;
                    (title, p) = scan_token (\<lambda>c. c = CHR 0x0A) SB_MAX_TITLE p;
                    t = t\<lparr>title := sb_str8to16 title SB_MAX_TITLE\<rparr>
                in Continue (s\<lparr>ls_p := sb_next_line p,
                               ls_targets := (ls_targets s)[ls_count s := t],
                               ls_cur := Some (ls_count s), ls_in_section := True\<rparr>)
         else if peek p = CHR ''/'' \<and> ls_in_section s \<and> ls_cur s \<noteq> None
         then
           Continue (s\<lparr>ls_p := p,
                       ls_count := (if accepted (ls_targets s ! the (ls_cur s))
                                    then ls_count s + 1 else ls_count s),
                       ls_in_section := False, ls_cur := None\<rparr>)
         else if ls_in_section s \<and> ls_cur s \<noteq> None
         then
           let (key, p) = scan_token (\<lambda>c. c = CHR '':'' \<or> c = CHR 0x0A) 128 p;
               p = (if peek p = CHR '':'' then tl p else p);
               p = sb_skip_whitespace p;
               (val, p) = scan_token (\<lambda>c. c = CHR 0x0A) SB_MAX_CMDLINE p;
               val = trim_trailing val;
               i = the (ls_cur s)
           in Continue (s\<lparr>ls_p := sb_next_line p,
                          ls_targets := (ls_targets s)[i := limine_set_key key val
                                                              (ls_targets s ! i)]\<rparr>)
         else Continue (s\<lparr>ls_p := sb_next_line p\<rparr>))"

definition limine_measure :: "limine_state \<Rightarrow> nat" where
  "limine_measure s = 2 * length (ls_p s) + (if ls_in_section s then 1 else 0)"

text \<open>
  Two parts of an iteration, named for the proofs: the scan of a \<open>key: value\<close> line
  (the key, the trimmed value and the cursor after the value) and the entry that a
  section header writes into its slot.
\<close>

definition kv_scan :: "string \<Rightarrow> string \<times> string \<times> string" where
  "kv_scan p =
     (let (key, p) = scan_token (\<lambda>c. c = CHR '':'' \<or> c = CHR 0x0A) 128 p;
          p = (if peek p = CHR '':'' then tl p else p);
          p = sb_skip_whitespace p;
          (val, p) = scan_token (\<lambda>c. c = CHR 0x0A) SB_MAX_CMDLINE p
      in (key, trim_trailing val, p))"

definition new_entry :: "EFI_HANDLE \<Rightarrow> CHAR16 list \<Rightarrow> nat \<Rightarrow> string \<Rightarrow> BootTarget" where
  "new_entry dev cfg n p =
     zero_target\<lparr>config_type := CONFIG_TYPE_LIMINE, device_handle := dev,
        config_path := cfg, index := of_nat n,
        title := sb_str8to16 (fst (scan_token (\<lambda>c. c = CHR 0x0A) SB_MAX_TITLE p)) SB_MAX_TITLE\<rparr>"

text \<open>
  Every iteration that continues makes progress: it consumes input, or it closes the
  section without consuming.  The lemmas below establish this for the termination of the
  loop.
\<close>

lemma length_sb_skip_whitespace: "length (sb_skip_whitespace p) \<le> length p"
  by (induction p) auto

lemma length_sb_next_line: "length (sb_next_line p) \<le> length p"
  by (induction p) auto

lemma sb_next_line_less: "p \<noteq> [] \<Longrightarrow> length (sb_next_line p) < length p"
  using length_sb_next_line [of "tl p"] by (cases p) (auto simp: less_Suc_eq_le)

lemma length_scan_token_rest: "length (snd (scan_token stop n p)) \<le> length p"
  by (simp add: scan_token_def Let_def)

lemma scan_token_consumes:
  assumes "1 < n" "p \<noteq> []" "\<not> stop (peek p)"
  shows "length (snd (scan_token stop n p)) < length p"
proof -
  define tok where "tok = take (n - 1) (takeWhile (\<lambda>c. \<not> stop c) p)"
  obtain c r where p: "p = c # r" using assms(2) by (cases p) auto
  have "\<not> stop c" using assms(3) p by (simp add: peek_def)
  then have tw: "takeWhile (\<lambda>c. \<not> stop c) p = c # takeWhile (\<lambda>c. \<not> stop c) r"
    by (simp add: p)
  obtain m where m: "n - 1 = Suc m" using assms(1) by (cases "n - 1") auto
  have "tok = c # take m (takeWhile (\<lambda>c. \<not> stop c) r)"
    by (simp only: tok_def tw m take_Suc_Cons)
  then obtain k where k: "length tok = Suc k" by simp
  have e: "snd (scan_token stop n p) = drop (length tok) p"
    by (simp add: scan_token_def Let_def tok_def)
  have "length (snd (scan_token stop n p)) = length p - Suc k"
    by (simp only: e k length_drop)
  moreover have "0 < length p" using assms(2) by simp
  ultimately show ?thesis by arith
qed

lemma length_tl_skip:
  "peek (sb_skip_whitespace p) \<noteq> CHR 0x00 \<Longrightarrow>
   length (tl (sb_skip_whitespace p)) < length p"
  using length_sb_skip_whitespace [of p]
  by (cases "sb_skip_whitespace p") (auto simp: peek_def)


lemma step_newline:
  "peek (sb_skip_whitespace (ls_p s)) = CHR 0x0A \<Longrightarrow>
   limine_step dev cfg m s = Continue (s\<lparr>ls_p := tl (sb_skip_whitespace (ls_p s))\<rparr>)"
  by (simp add: limine_step_def Let_def)

lemma step_comment:
  "peek (sb_skip_whitespace (ls_p s)) = CHR ''#'' \<Longrightarrow>
   limine_step dev cfg m s = Continue (s\<lparr>ls_p := sb_next_line (sb_skip_whitespace (ls_p s))\<rparr>)"
  by (simp add: limine_step_def Let_def)

lemma step_header_break:
  "peek (sb_skip_whitespace (ls_p s)) = CHR ''/'' \<Longrightarrow> \<not> ls_in_section s \<Longrightarrow>
   m \<le> ls_count s \<Longrightarrow>
   limine_step dev cfg m s = Break (s\<lparr>ls_p := tl (sb_skip_whitespace (ls_p s))\<rparr>)"
  by (simp add: limine_step_def Let_def)

lemma step_header:
  "peek (sb_skip_whitespace (ls_p s)) = CHR ''/'' \<Longrightarrow> \<not> ls_in_section s \<Longrightarrow>
   ls_count s < m \<Longrightarrow>
   limine_step dev cfg m s =
     Continue (s\<lparr>ls_p := sb_next_line (snd (scan_token (\<lambda>c. c = CHR 0x0A) SB_MAX_TITLE
                                 (tl (sb_skip_whitespace (ls_p s))))),
                 ls_targets := (ls_targets s)[ls_count s :=
                    new_entry dev cfg (ls_count s) (tl (sb_skip_whitespace (ls_p s)))],
                 ls_cur := Some (ls_count s), ls_in_section := True\<rparr>)"
  by (simp add: limine_step_def Let_def split_beta new_entry_def)

lemma step_close:
  "peek (sb_skip_whitespace (ls_p s)) = CHR ''/'' \<Longrightarrow> ls_in_section s \<Longrightarrow>
   ls_cur s = Some i \<Longrightarrow>
   limine_step dev cfg m s =
     Continue (s\<lparr>ls_p := sb_skip_whitespace (ls_p s),
                 ls_count := (if accepted (ls_targets s ! i) then ls_count s + 1 else ls_count s),
                 ls_in_section := False, ls_cur := None\<rparr>)"
  by (simp add: limine_step_def Let_def)

lemma step_key_value:
  "peek (sb_skip_whitespace (ls_p s)) \<noteq> CHR 0x0A \<Longrightarrow>
   peek (sb_skip_whitespace (ls_p s)) \<noteq> CHR ''#'' \<Longrightarrow>
   peek (sb_skip_whitespace (ls_p s)) \<noteq> CHR ''/'' \<Longrightarrow>
   ls_in_section s \<Longrightarrow> ls_cur s = Some i \<Longrightarrow>
   limine_step dev cfg m s =
     (case kv_scan (sb_skip_whitespace (ls_p s)) of (key, val, p) \<Rightarrow>
        Continue (s\<lparr>ls_p := sb_next_line p,
                    ls_targets := (ls_targets s)[i := limine_set_key key val (ls_targets s ! i)]\<rparr>))"
  by (simp add: limine_step_def Let_def split_beta kv_scan_def)

lemma step_other:
  "peek (sb_skip_whitespace (ls_p s)) \<noteq> CHR 0x0A \<Longrightarrow>
   peek (sb_skip_whitespace (ls_p s)) \<noteq> CHR ''#'' \<Longrightarrow>
   \<not> (ls_in_section s \<and> ls_cur s \<noteq> None) \<Longrightarrow>
   (peek (sb_skip_whitespace (ls_p s)) = CHR ''/'' \<longrightarrow> ls_in_section s) \<Longrightarrow>
   limine_step dev cfg m s = Continue (s\<lparr>ls_p := sb_next_line (sb_skip_whitespace (ls_p s))\<rparr>)"
  by (auto simp: limine_step_def Let_def)

lemma kv_scan_rest_le: "length (snd (snd (kv_scan p))) \<le> length p"
proof -
  define k where "k = scan_token (\<lambda>c. c = CHR '':'' \<or> c = CHR 0x0A) 128 p"
  define p1 where "p1 = (if peek (snd k) = CHR '':'' then tl (snd k) else snd k)"
  define p2 where "p2 = sb_skip_whitespace p1"
  define v where "v = scan_token (\<lambda>c. c = CHR 0x0A) SB_MAX_CMDLINE p2"
  have e: "snd (snd (kv_scan p)) = snd v"
    by (simp add: kv_scan_def Let_def split_beta k_def p1_def p2_def v_def)
  have "length (snd v) \<le> length p2" by (simp add: v_def length_scan_token_rest)
  also have "\<dots> \<le> length p1" by (simp add: p2_def length_sb_skip_whitespace)
  also have "\<dots> \<le> length (snd k)" by (cases "snd k") (auto simp: p1_def)
  also have "\<dots> \<le> length p" by (simp add: k_def length_scan_token_rest)
  finally show ?thesis by (simp only: e)
qed

lemma kv_scan_rest_less:
  assumes "p \<noteq> []" "peek p \<noteq> CHR 0x0A"
  shows "length (snd (snd (kv_scan p))) < length p"
proof -
  define k where "k = scan_token (\<lambda>c. c = CHR '':'' \<or> c = CHR 0x0A) 128 p"
  define p1 where "p1 = (if peek (snd k) = CHR '':'' then tl (snd k) else snd k)"
  define p2 where "p2 = sb_skip_whitespace p1"
  define v where "v = scan_token (\<lambda>c. c = CHR 0x0A) SB_MAX_CMDLINE p2"
  have e: "snd (snd (kv_scan p)) = snd v"
    by (simp add: kv_scan_def Let_def split_beta k_def p1_def p2_def v_def)
  have "length (snd v) \<le> length p2" by (simp add: v_def length_scan_token_rest)
  also have "\<dots> \<le> length p1" by (simp add: p2_def length_sb_skip_whitespace)
  finally have a: "length (snd v) \<le> length p1" .
  have "length p1 < length p"
  proof (cases "peek p = CHR '':''")
    case True
    then have "snd k = p"
      using assms(1) by (cases p) (auto simp: k_def scan_token_def peek_def)
    then have "p1 = tl p" using True by (simp add: p1_def)
    then show ?thesis using assms(1) by (cases p) auto
  next
    case False
    have "length (snd k) < length p"
      unfolding k_def
      by (rule scan_token_consumes) (use False assms in auto)
    moreover have "length p1 \<le> length (snd k)"
      by (cases "snd k") (auto simp: p1_def)
    ultimately show ?thesis by simp
  qed
  with a show ?thesis by (simp only: e)
qed

lemma limine_step_decreases:
  assumes ne: "ls_p s \<noteq> []" and st: "limine_step dev cfg m s = Continue s'"
  shows "limine_measure s' < limine_measure s"
proof -
  define p where "p = sb_skip_whitespace (ls_p s)"
  have pl: "length p \<le> length (ls_p s)" by (simp add: p_def length_sb_skip_whitespace)
  have pos: "0 < length (ls_p s)" using ne by simp
  have nl_less: "length (sb_next_line p) < length (ls_p s)"
  proof (cases "p = []")
    case True
    with pos show ?thesis by simp
  next
    case False
    then show ?thesis using sb_next_line_less [of p] pl by simp
  qed
  show ?thesis
  proof (cases "peek p = CHR 0x0A")
    case True
    then have "s' = s\<lparr>ls_p := tl p\<rparr>"
      using st step_newline [of s dev cfg m] by (simp add: p_def)
    moreover have "length (tl p) < length (ls_p s)"
      using True length_tl_skip [of "ls_p s"] by (simp add: p_def)
    ultimately show ?thesis by (simp add: limine_measure_def)
  next
    case False
    note nl = this
    show ?thesis
    proof (cases "peek p = CHR ''#''")
      case True
      then have "s' = s\<lparr>ls_p := sb_next_line p\<rparr>"
        using st step_comment [of s dev cfg m] by (simp add: p_def)
      then show ?thesis using nl_less by (simp add: limine_measure_def)
    next
      case False
      note nh = this
      show ?thesis
      proof (cases "peek p = CHR ''/''")
        case True
        note sl = this
        have lt: "length (tl p) < length (ls_p s)"
          using True length_tl_skip [of "ls_p s"] by (simp add: p_def)
        show ?thesis
        proof (cases "ls_in_section s")
          case False
          show ?thesis
          proof (cases "ls_count s < m")
            case True
            have "ls_p s' = sb_next_line (snd (scan_token (\<lambda>c. c = CHR 0x0A) SB_MAX_TITLE (tl p)))"
              using st step_header [of s m dev cfg] sl False True by (simp add: p_def)
            then have "length (ls_p s') \<le> length (tl p)"
              using length_sb_next_line
                 [of "snd (scan_token (\<lambda>c. c = CHR 0x0A) SB_MAX_TITLE (tl p))"]
                length_scan_token_rest [of "\<lambda>c. c = CHR 0x0A" SB_MAX_TITLE "tl p"]
              by simp
            then show ?thesis using lt by (simp add: limine_measure_def)
          next
            case nlt: False
            then show ?thesis
              using st step_header_break [of s m dev cfg] sl False by (simp add: p_def)
          qed
        next
          case True
          note ins = this
          show ?thesis
          proof (cases "ls_cur s")
            case (Some i)
            have "s' = s\<lparr>ls_p := p,
                 ls_count := (if accepted (ls_targets s ! i) then ls_count s + 1 else ls_count s),
                 ls_in_section := False, ls_cur := None\<rparr>"
              using st step_close [of s i dev cfg m] sl ins Some by (simp add: p_def)
            then show ?thesis using ins pl by (simp add: limine_measure_def)
          next
            case None
            then have "s' = s\<lparr>ls_p := sb_next_line p\<rparr>"
              using st step_other [of s dev cfg m] nl nh ins by (simp add: p_def)
            then show ?thesis using nl_less by (simp add: limine_measure_def)
          qed
        qed
      next
        case False
        note nsl = this
        show ?thesis
        proof (cases "ls_in_section s \<and> ls_cur s \<noteq> None")
          case True
          then obtain i where i: "ls_cur s = Some i" by auto
          obtain key val p3 where kv: "kv_scan p = (key, val, p3)" by (cases "kv_scan p") auto
          have s': "s' = s\<lparr>ls_p := sb_next_line p3,
                    ls_targets := (ls_targets s)[i := limine_set_key key val (ls_targets s ! i)]\<rparr>"
            using st step_key_value [of s i dev cfg m] nl nh nsl True i kv by (simp add: p_def)
          have "length p3 < length (ls_p s)"
          proof (cases "p = []")
            case True
            then show ?thesis using kv_scan_rest_le [of p] kv pos by simp
          next
            case False
            then show ?thesis using kv_scan_rest_less [of p] nl kv pl by simp
          qed
          then have "length (sb_next_line p3) < length (ls_p s)"
            using length_sb_next_line [of p3] by simp
          then show ?thesis by (simp add: s' limine_measure_def)
        next
          case False
          then have "s' = s\<lparr>ls_p := sb_next_line p\<rparr>"
            using st step_other [of s dev cfg m] nl nh nsl by (simp add: p_def)
          then show ?thesis using nl_less by (simp add: limine_measure_def)
        qed
      qed
    qed
  qed
qed

function limine_loop ::
  "EFI_HANDLE \<Rightarrow> CHAR16 list \<Rightarrow> nat \<Rightarrow> limine_state \<Rightarrow> limine_state" where
  "limine_loop dev cfg_path max' s =
     (if ls_p s = [] then s
      else (case limine_step dev cfg_path max' s of
              Continue s' \<Rightarrow> limine_loop dev cfg_path max' s'
            | Break s' \<Rightarrow> s'))"
  by pat_completeness auto
termination
  by (relation "measure (\<lambda>(dev, cfg_path, m, s). limine_measure s)")
     (auto simp: limine_step_decreases)

declare limine_loop.simps [simp del]

text \<open>
  \<open>limine_parse\<close> returns its status, the caller's array as it leaves it, and
  \<open>*count\<close>.  \<open>config_size\<close> is ignored by the C function and is not a parameter
  here.
\<close>

definition limine_parse ::
  "string \<Rightarrow> EFI_HANDLE \<Rightarrow> CHAR16 list \<Rightarrow> BootTarget list \<Rightarrow> nat
     \<Rightarrow> EFI_STATUS \<times> BootTarget list \<times> nat" where
  "limine_parse config_data dev cfg_path targets max' =
     (let s = limine_loop dev cfg_path max'
                \<lparr>ls_p = config_data, ls_targets = targets, ls_count = 0, ls_cur = None,
                 ls_in_section = False\<rparr>;
          count = (if ls_in_section s \<and> ls_cur s \<noteq> None
                      \<and> accepted (ls_targets s ! the (ls_cur s))
                   then ls_count s + 1 else ls_count s)
      in (EFI_SUCCESS, ls_targets s, count))"

text \<open>A wide string literal.\<close>

definition wide :: "string \<Rightarrow> CHAR16 list" where
  "wide s = map of_char s"

text \<open>
  The invariant of the main loop, for the proofs: the entries below \<open>*count\<close> were
  accepted and carry \<open>efi_path\<close> only together with the chainload flag; \<open>cur\<close>, when
  not null, points to the slot \<open>targets[*count]\<close>, which is inside the array.
\<close>

definition efi_flag :: "BootTarget \<Rightarrow> bool" where
  "efi_flag t = (peek16 (efi_path t) \<noteq> 0 \<longrightarrow> is_chainload t)"

definition entry_ok :: "BootTarget \<Rightarrow> bool" where
  "entry_ok t = (accepted t \<and> efi_flag t)"

definition limine_inv :: "nat \<Rightarrow> limine_state \<Rightarrow> bool" where
  "limine_inv m s =
     (ls_count s \<le> m \<and> m \<le> length (ls_targets s)
      \<and> (\<forall>i < ls_count s. entry_ok (ls_targets s ! i))
      \<and> (\<forall>i. ls_cur s = Some i \<longrightarrow> i = ls_count s \<and> i < m \<and> efi_flag (ls_targets s ! i)))"

section \<open>The ext4 driver (fs/ext4.c)\<close>

text \<open>
  The on-disk structures are packed; the model keeps each one as the bytes read from the
  device and reads a member at its offset, little-endian.  \<open>Ext4Superblock\<close> is 204
  bytes, \<open>Ext4GroupDesc\<close> 32 bytes and \<open>Ext4Inode\<close> 160 bytes long.
\<close>

definition EXT4_SUPER_MAGIC :: UINT16 where "EXT4_SUPER_MAGIC = 0xEF53"
definition EXT4_SUPERBLOCK_OFFSET :: nat where "EXT4_SUPERBLOCK_OFFSET = 1024"

definition sizeof_Ext4Superblock :: nat where "sizeof_Ext4Superblock = 204"
definition sizeof_Ext4GroupDesc :: nat where "sizeof_Ext4GroupDesc = 32"
definition sizeof_Ext4Inode :: nat where "sizeof_Ext4Inode = 160"
definition sizeof_Ext4Context :: nat where "sizeof_Ext4Context = 232"

definition s_first_data_block :: "byte list \<Rightarrow> UINT32" where
  "s_first_data_block sb = rd32 sb 20"
definition s_log_block_size :: "byte list \<Rightarrow> UINT32" where
  "s_log_block_size sb = rd32 sb 24"
definition s_inodes_per_group :: "byte list \<Rightarrow> UINT32" where
  "s_inodes_per_group sb = rd32 sb 40"
definition s_magic :: "byte list \<Rightarrow> UINT16" where
  "s_magic sb = rd16 sb 56"
definition s_rev_level :: "byte list \<Rightarrow> UINT32" where
  "s_rev_level sb = rd32 sb 76"
definition s_inode_size :: "byte list \<Rightarrow> UINT16" where
  "s_inode_size sb = rd16 sb 88"

definition bg_inode_table_lo :: "byte list \<Rightarrow> UINT32" where
  "bg_inode_table_lo gd = rd32 gd 8"

definition i_mode :: "byte list \<Rightarrow> UINT16" where
  "i_mode inode = rd16 inode 0"


text \<open>
  A directory record at offset \<open>p\<close> of the directory's data: \<open>inode\<close>, \<open>rec_len\<close>,
  \<open>name_len\<close>, \<open>file_type\<close> and the name.
\<close>

definition de_inode :: "byte list \<Rightarrow> nat \<Rightarrow> UINT32" where
  "de_inode dir_data p = rd32 dir_data p"
definition de_rec_len :: "byte list \<Rightarrow> nat \<Rightarrow> UINT16" where
  "de_rec_len dir_data p = rd16 dir_data (p + 4)"
definition de_name_len :: "byte list \<Rightarrow> nat \<Rightarrow> UINT8" where
  "de_name_len dir_data p = byte_at dir_data (p + 6)"
definition de_name :: "byte list \<Rightarrow> nat \<Rightarrow> string" where
  "de_name dir_data p = map (\<lambda>b. char_of (uint b)) (drop (p + 8) dir_data)"

record Ext4Context =
  block_io :: EFI_BLOCK_IO_PROTOCOL
  disk_io :: "EFI_DISK_IO_PROTOCOL option"
  sb :: "byte list"
  block_size :: UINT32
  inode_size :: UINT32
  group_desc_size :: UINT32

text \<open>
  Pool memory: \<open>pool n\<close> is what \<open>AllocatePool (n)\<close> returns, \<open>None\<close> for a null
  pointer and otherwise the contents the fresh buffer happens to have.

  A function of the driver that divides by a number read from the device can raise the
  processor's divide error, after which it does not return: such functions are
  option-valued, and \<open>None\<close> is that outcome.  A read that fails leaves the caller's
  buffer as it was; the model returns the status with the data, and the callers look at
  the data only when the status is not an error.
\<close>

type_synonym pool = "nat \<Rightarrow> byte list option"


definition ext4_read_bytes ::
  "pool \<Rightarrow> Ext4Context \<Rightarrow> UINT64 \<Rightarrow> nat \<Rightarrow> (EFI_STATUS \<times> byte list) option" where
  "ext4_read_bytes pool c offset sz =
     (case disk_io c of
        Some d \<Rightarrow> Some (ReadDisk d (MediaId (block_io c)) offset sz)
      | None \<Rightarrow>
          let bs = BlockSize (block_io c)
          in if bs = 0 then None
             else
               let start_lba = offset div ucast bs;
                   end_lba = (offset + of_nat sz + ucast bs - 1) div ucast bs;
                   total = unat ((end_lba - start_lba) * ucast bs)
               in case pool total of
                    None \<Rightarrow> Some (EFI_OUT_OF_RESOURCES, [])
                  | Some tmp0 \<Rightarrow>
                      let (s, tmp) = ReadBlocks (block_io c) (MediaId (block_io c))
                                       start_lba total
                      in if \<not> EFI_ERROR s
                         then Some (s, take sz (drop (unat (offset mod ucast bs)) tmp))
                         else Some (s, []))"

definition ext4_read_inode ::
  "pool \<Rightarrow> Ext4Context \<Rightarrow> UINT32 \<Rightarrow> (EFI_STATUS \<times> byte list) option" where
  "ext4_read_inode pool c ino =
     (if s_inodes_per_group (sb c) = 0 then None
      else
        let group = (ino - 1) div s_inodes_per_group (sb c);
            index = (ino - 1) mod s_inodes_per_group (sb c);
            gd_offset = (ucast (s_first_data_block (sb c) + 1) :: UINT64) * ucast (block_size c)
                          + ucast group * ucast (group_desc_size c)
        in case ext4_read_bytes pool c gd_offset sizeof_Ext4GroupDesc of
             None \<Rightarrow> None
           | Some (s, gd) \<Rightarrow>
               if EFI_ERROR s then Some (s, [])
               else
                 let inode_offset = (ucast (bg_inode_table_lo gd) :: UINT64) * ucast (block_size c)
                                      + ucast index * ucast (inode_size c)
                 in ext4_read_bytes pool c inode_offset sizeof_Ext4Inode)"






text \<open>
  The walk over the directory records.  \<open>dir_record\<close> is the body of the loop on the
  record at \<open>p\<close>: it ends the walk with a result, or yields the step \<open>rec_len\<close> to the
  next record.  \<open>dir_walk\<close> is the loop; with the result it returns the number of
  records it visited, that is, of executions of the body.
\<close>

datatype dir_step = Done UINT32 | Next nat

definition name_matches :: "byte list \<Rightarrow> string \<Rightarrow> nat \<Rightarrow> bool" where
  "name_matches dir_data name' p =
     (de_inode dir_data p \<noteq> 0
      \<and> unat (de_name_len dir_data p) = sb_strlen8 name'
      \<and> sb_strncmp8 (de_name dir_data p) name' (sb_strlen8 name') = 0)"

definition dir_record :: "byte list \<Rightarrow> string \<Rightarrow> nat \<Rightarrow> dir_step" where
  "dir_record dir_data name' p =
     (if de_rec_len dir_data p = 0 then Done 0
      else if name_matches dir_data name' p then Done (de_inode dir_data p)
      else Next (unat (de_rec_len dir_data p)))"

lemma dir_record_Next_positive: "dir_record dir_data name' p = Next n \<Longrightarrow> 0 < n"
  by (auto simp: dir_record_def unat_gt_0 split: if_splits)

function dir_walk :: "byte list \<Rightarrow> nat \<Rightarrow> string \<Rightarrow> nat \<Rightarrow> UINT32 \<times> nat" where
  "dir_walk dir_data end name' p =
     (if p + 8 < end
      then (case dir_record dir_data name' p of
              Done result \<Rightarrow> (result, 1)
            | Next rec_len \<Rightarrow>
                let (result, visited) = dir_walk dir_data end name' (p + rec_len)
                in (result, visited + 1))
      else (0, 0))"
  by pat_completeness auto
termination
  by (relation "measure (\<lambda>(dir_data, end, name', p). end - p)")
     (auto dest: dir_record_Next_positive)

declare dir_walk.simps [simp del]







text \<open>
  \<open>ext4_probe\<close> and \<open>ext4_mount\<close>.  \<open>ext4_mount\<close> returns its status and the context
  it stores in \<open>*fs_context\<close>.  A shift of \<open>1024U\<close> by 32 or more is undefined in C; the
  model's \<open>push_bit\<close> then yields 0.
\<close>

definition ext4_probe ::
  "pool \<Rightarrow> EFI_BLOCK_IO_PROTOCOL \<Rightarrow> EFI_DISK_IO_PROTOCOL option \<Rightarrow> EFI_STATUS option" where
  "ext4_probe pool bio dio =
     (case dio of
        Some d \<Rightarrow>
          let (status, sb) = ReadDisk d (MediaId bio) (of_nat EXT4_SUPERBLOCK_OFFSET)
                               sizeof_Ext4Superblock
          in if EFI_ERROR status then Some status
             else Some (if s_magic sb = EXT4_SUPER_MAGIC then EFI_SUCCESS else EFI_NOT_FOUND)
      | None \<Rightarrow>
          let bs = BlockSize bio;
              tmp_size = (if bs < 2048 then 2048 else unat bs)
          in case pool tmp_size of
               None \<Rightarrow> Some EFI_OUT_OF_RESOURCES
             | Some tmp0 \<Rightarrow>
                 if bs = 0 then None
                 else
                   let (status, tmp) = ReadBlocks bio (MediaId bio)
                                         (of_nat (EXT4_SUPERBLOCK_OFFSET div unat bs)) tmp_size;
                       sb = take sizeof_Ext4Superblock
                              (drop (EXT4_SUPERBLOCK_OFFSET mod unat bs) tmp)
                   in if EFI_ERROR status then Some status
                      else Some (if s_magic sb = EXT4_SUPER_MAGIC then EFI_SUCCESS
                                 else EFI_NOT_FOUND))"

definition ext4_mount ::
  "pool \<Rightarrow> EFI_BLOCK_IO_PROTOCOL \<Rightarrow> EFI_DISK_IO_PROTOCOL option
     \<Rightarrow> (EFI_STATUS \<times> Ext4Context option) option" where
  "ext4_mount pool bio dio =
     (case pool sizeof_Ext4Context of
        None \<Rightarrow> Some (EFI_OUT_OF_RESOURCES, None)
      | Some c0 \<Rightarrow>
          let c = \<lparr>block_io = bio, disk_io = dio, sb = replicate sizeof_Ext4Superblock 0,
                   block_size = 0, inode_size = 0, group_desc_size = 0\<rparr>
          in case ext4_probe pool bio dio of
               None \<Rightarrow> None
             | Some s \<Rightarrow>
                 if EFI_ERROR s then Some (s, None)
                 else
                   let c = (case dio of
                              Some d \<Rightarrow>
                                let (rs, data) = ReadDisk d (MediaId bio)
                                                   (of_nat EXT4_SUPERBLOCK_OFFSET)
                                                   sizeof_Ext4Superblock
                                in if EFI_ERROR rs then c else c\<lparr>sb := data\<rparr>
                            | None \<Rightarrow> c);
                       c = c\<lparr>block_size := push_bit (unat (s_log_block_size (sb c))) 1024\<rparr>;
                       c = c\<lparr>inode_size := (if 1 \<le> s_rev_level (sb c)
                                                then ucast (s_inode_size (sb c)) else 128)\<rparr>;
                       c = c\<lparr>group_desc_size := 32\<rparr>
                   in Some (EFI_SUCCESS, Some c))"

text \<open>
  Two directory buffers: \<open>two_record_dir\<close> holds the records \<open>a\<close> (inode 12) and
  \<open>b\<close> (inode 13), 12 bytes each; \<open>eight_byte_dir\<close> is a single record header of 8
  bytes (inode 5, \<open>rec_len\<close> 8).
\<close>

definition two_record_dir :: "byte list" where
  "two_record_dir = [12, 0, 0, 0, 12, 0, 1, 1, 0x61, 0, 0, 0,
                     13, 0, 0, 0, 12, 0, 1, 1, 0x62, 0, 0, 0]"

definition eight_byte_dir :: "byte list" where
  "eight_byte_dir = [5, 0, 0, 0, 8, 0, 1, 1]"

text \<open>
  A device for the mount: \<open>test_superblock\<close> is a superblock with the magic number,
  \<open>s_log_block_size\<close> 2, \<open>s_rev_level\<close> 1 and \<open>s_inode_size\<close> 256, stored at byte 1024
  (sector 2 of 512-byte sectors) of a device that is zero elsewhere.  \<open>block_only_device\<close>
  is its Block I/O interface and \<open>byte_device\<close> its Disk I/O interface; \<open>zero_pool\<close>
  hands out zeroed buffers.  \<open>block_only_context\<close> and \<open>byte_device_context\<close> are the
  contexts the mount stores without and with Disk I/O.
\<close>

definition test_superblock :: "byte list" where
  "test_superblock =
     replicate 24 0 @ [2, 0, 0, 0] @ replicate 28 0 @ [0x53, 0xEF] @ replicate 18 0
       @ [1, 0, 0, 0] @ replicate 8 0 @ [0, 1] @ replicate 114 0"

definition block_only_device :: EFI_BLOCK_IO_PROTOCOL where
  "block_only_device =
     \<lparr>MediaId = 0, BlockSize = 512,
      ReadBlocks = (\<lambda>media lba n.
        (EFI_SUCCESS,
         if lba = 2 then take n (test_superblock @ replicate n 0) else replicate n 0))\<rparr>"

definition byte_device :: EFI_DISK_IO_PROTOCOL where
  "byte_device =
     \<lparr>ReadDisk = (\<lambda>media offset n.
        (EFI_SUCCESS,
         if offset = 1024 then take n (test_superblock @ replicate n 0)
         else replicate n 0))\<rparr>"

definition zero_pool :: pool where
  "zero_pool n = Some (replicate n 0)"

definition block_only_context :: Ext4Context where
  "block_only_context =
     \<lparr>block_io = block_only_device, disk_io = None, sb = replicate sizeof_Ext4Superblock 0,
      block_size = 1024, inode_size = 128, group_desc_size = 32\<rparr>"

definition byte_device_context :: Ext4Context where
  "byte_device_context =
     \<lparr>block_io = block_only_device, disk_io = Some byte_device, sb = test_superblock,
      block_size = 4096, inode_size = 256, group_desc_size = 32\<rparr>"

text \<open>
  Path resolution in the words of the specification.  \<open>narrow_path\<close> is the path translated
  to narrow characters with every backslash replaced by \<open>/\<close>; \<open>split_slash\<close> splits it
  on \<open>/\<close> and
  \<open>path_components\<close> drops the empty components.  \<open>walk_components\<close> walks the components
  from an inode: it reads the current inode, looks the component up in it and goes on
  with the inode found; a failed read or lookup gives inode 0.  The walk makes no test on
  the mode of the inode it reads, as \<open>resolve_loop\<close> makes none.
\<close>

fun split_slash :: "string \<Rightarrow> string list" where
  "split_slash [] = [[]]"
| "split_slash (ch # p) =
     (if ch = CHR ''/'' then [] # split_slash p
      else (case split_slash p of [] \<Rightarrow> [[ch]] | s # ss \<Rightarrow> (ch # s) # ss))"














text \<open>\<open>with_mode inode lo hi\<close> is the inode with the two bytes of \<open>i_mode\<close> replaced.\<close>

definition with_mode :: "byte list \<Rightarrow> byte \<Rightarrow> byte \<Rightarrow> byte list" where
  "with_mode inode mode_lo mode_hi = inode[0 := mode_lo, 1 := mode_hi]"

text \<open>The characters \<open>scan_token\<close> takes for a component.\<close>

abbreviation not_slash :: "char \<Rightarrow> bool" where
  "not_slash \<equiv> (\<lambda>ch. ch \<noteq> CHR ''/'')"

section \<open>Properties of the E820 conversion\<close>

lemma efi_mem_to_e820_type_spec: "efi_mem_to_e820_type t = e820_kind_spec t"
  by (simp add: efi_mem_to_e820_type_def e820_kind_spec_def)

lemma coalesce_full: "cap \<le> length out \<Longrightarrow> e820_coalesce_spec cap out ds = out"
  by (cases ds) simp_all

lemma coalesce_step:
  "length out < cap \<Longrightarrow>
   e820_coalesce_spec cap out (d # ds) = e820_coalesce_spec cap (e820_step out d) ds"
  by (simp add: e820_step_def e820_merges_def efi_mem_to_e820_type_spec Let_def)

lemma length_e820_step: "length (e820_step out d) \<le> Suc (length out)"
  by (simp add: e820_step_def Let_def)

lemma coalesce_length:
  "length out \<le> cap \<Longrightarrow> length (e820_coalesce_spec cap out ds) \<le> cap"
proof (induction ds arbitrary: out)
  case Nil
  then show ?case by simp
next
  case (Cons d ds)
  show ?case
  proof (cases "cap \<le> length out")
    case True
    with Cons.prems show ?thesis by simp
  next
    case False
    then have lt: "length out < cap" by simp
    have "length (e820_step out d) \<le> cap"
      using length_e820_step [of out d] lt by simp
    then show ?thesis
      using Cons.IH lt by (simp only: coalesce_step)
  qed
qed

lemma steps_unfold:
  assumes "0 < d" "p < e"
  shows "map (\<lambda>k. mmap (p + k * d)) [0 ..< (e - p + d - 1) div d]
         = mmap p # map (\<lambda>k. mmap (p + d + k * d)) [0 ..< (e - (p + d) + d - 1) div d]"
proof -
  let ?n = "(e - p + d - 1) div d"
  let ?m = "(e - (p + d) + d - 1) div d"
  have n: "?n = Suc ?m"
  proof (cases "p + d \<le> e")
    case True
    then have "e - p + d - 1 = (e - (p + d) + d - 1) + d" using assms by simp
    then have "?n = (e - (p + d) + d - 1) div d + 1" using assms by (simp only: div_add_self2)
    then show ?thesis by simp
  next
    case False
    then have a: "e - (p + d) = 0" by simp
    have b: "e - p + d - 1 = (e - p - 1) + d" using assms by simp
    have c: "e - p - 1 < d" using False assms by simp
    have "?n = (e - p - 1 + d) div d" by (simp only: b)
    also have "\<dots> = (e - p - 1) div d + 1" using assms by (simp only: div_add_self2)
    also have "\<dots> = 1" using c by simp
    finally have n1: "?n = 1" .
    have "?m = (d - 1) div d" by (simp only: a) simp
    also have "\<dots> = 0" using assms by simp
    finally show ?thesis using n1 by simp
  qed
  have "[0 ..< Suc ?m] = 0 # map Suc [0 ..< ?m]"
    by (simp add: upt_conv_Cons map_Suc_upt del: upt_Suc)
  then show ?thesis
    by (simp only: n) (simp add: comp_def ac_simps)
qed

lemma e820_loop_spec:
  assumes "0 < d"
  shows "e820_loop mmap e d cap p out
         = Some (e820_coalesce_spec cap out
                   (map (\<lambda>k. mmap (p + k * d)) [0 ..< (e - p + d - 1) div d]))"
proof (induction "e - p" arbitrary: p out rule: less_induct)
  case less
  show ?case
  proof (cases "p < e")
    case False
    then have "(e - p + d - 1) div d = 0" using assms by simp
    with False show ?thesis by (subst e820_loop.simps) simp
  next
    case True
    note pe = this
    show ?thesis
    proof (cases "length out < cap")
      case False
      then show ?thesis
        by (subst e820_loop.simps) (simp add: coalesce_full)
    next
      case True
      have dec: "e - (p + d) < e - p" using pe assms by simp
      have "e820_loop mmap e d cap p out
            = e820_loop mmap e d cap (p + d) (e820_step out (mmap p))"
        using pe True by (subst e820_loop.simps) simp
      also have "\<dots> = Some (e820_coalesce_spec cap (e820_step out (mmap p))
                   (map (\<lambda>k. mmap (p + d + k * d)) [0 ..< (e - (p + d) + d - 1) div d]))"
        by (rule less.hyps [OF dec])
      also have "\<dots> = Some (e820_coalesce_spec cap out
                   (map (\<lambda>k. mmap (p + k * d)) [0 ..< (e - p + d - 1) div d]))"
        by (simp only: steps_unfold [OF assms pe] coalesce_step [OF True])
      finally show ?thesis .
    qed
  qed
qed

lemma example_run:
  assumes "0 < d"
  shows "sb_efi_memmap_to_e820 (example_mmap d) (3 * d) d 128
         = Some [\<lparr>addr = 0x0, size = 0x3000, type = 1\<rparr>,
                 \<lparr>addr = 0x4000, size = 0x1000, type = 3\<rparr>]"
proof -
  have s1: "e820_step [] (example_mmap d 0) = [\<lparr>addr = 0x0, size = 0x1000, type = 1\<rparr>]"
    by (simp add: e820_step_def e820_merges_def example_mmap_def efi_mem_to_e820_type_def
        EfiLoaderCode_def)
  have s2: "e820_step [\<lparr>addr = 0x0, size = 0x1000, type = 1\<rparr>] (example_mmap d d)
            = [\<lparr>addr = 0x0, size = 0x3000, type = 1\<rparr>]"
    using assms
    by (simp add: e820_step_def e820_merges_def example_mmap_def efi_mem_to_e820_type_def
        EfiLoaderCode_def EfiLoaderData_def)
  have s3: "e820_step [\<lparr>addr = 0x0, size = 0x3000, type = 1\<rparr>] (example_mmap d (d + d))
            = [\<lparr>addr = 0x0, size = 0x3000, type = 1\<rparr>,
               \<lparr>addr = 0x4000, size = 0x1000, type = 3\<rparr>]"
    using assms
    by (simp add: e820_step_def e820_merges_def example_mmap_def efi_mem_to_e820_type_def
        EfiLoaderCode_def EfiLoaderData_def EfiBootServicesCode_def EfiBootServicesData_def
        EfiConventionalMemory_def EfiACPIReclaimMemory_def)
  show ?thesis
    unfolding sb_efi_memmap_to_e820_def
    apply (subst e820_loop.simps, simp add: assms s1)
    apply (subst e820_loop.simps, simp add: assms s2)
    apply (subst e820_loop.simps, simp add: assms s3)
    apply (subst e820_loop.simps, simp add: assms)
    done
qed

lemma upt_128: "[0 ..< 128] = [0 ..< 127] @ [127 :: nat]"
  using upt_Suc_append [of 0 127] by (simp del: upt_Suc)

lemma capacity_step:
  assumes "n < 128"
  shows "e820_step (map capacity_entry [0 ..< n]) (capacity_mmap (48 * n))
         = map capacity_entry [0 ..< Suc n]"
proof -
  have t: "efi_mem_to_e820_type (Type (capacity_mmap (48 * n))) = (if even n then 1 else 3)"
    using assms
    by (simp add: capacity_mmap_def efi_mem_to_e820_type_def EfiConventionalMemory_def
          EfiACPIReclaimMemory_def EfiLoaderCode_def EfiLoaderData_def
          EfiBootServicesCode_def EfiBootServicesData_def)
  have "\<not> e820_merges (map capacity_entry [0 ..< n])
            (efi_mem_to_e820_type (Type (capacity_mmap (48 * n))))
            (PhysicalStart (capacity_mmap (48 * n)))"
  proof (cases n)
    case 0
    then show ?thesis by (simp add: e820_merges_def)
  next
    case (Suc m)
    then have "last (map capacity_entry [0 ..< n]) = capacity_entry m" by simp
    then have "type (last (map capacity_entry [0 ..< n])) = (if even m then 1 else 3)"
      by (simp add: capacity_entry_def)
    then have "type (last (map capacity_entry [0 ..< n])) \<noteq> (if even n then 1 else 3)"
      using Suc by simp
    then show ?thesis
      by (simp only: e820_merges_def t) simp
  qed
  then show ?thesis
    by (simp add: e820_step_def Let_def t) (simp add: capacity_mmap_def capacity_entry_def)
qed

lemma capacity_run:
  assumes "n \<le> 128" "128 \<le> cap"
  shows "e820_loop capacity_mmap 6192 48 cap (48 * n) (map capacity_entry [0 ..< n])
         = e820_loop capacity_mmap 6192 48 cap 6144 (map capacity_entry [0 ..< 128])"
  using assms
proof (induction "128 - n" arbitrary: n)
  case 0
  then have "n = 128" by simp
  then show ?case by simp
next
  case (Suc k)
  then have n: "n < 128" by simp
  have "e820_loop capacity_mmap 6192 48 cap (48 * n) (map capacity_entry [0 ..< n])
        = e820_loop capacity_mmap 6192 48 cap (48 * n + 48)
            (e820_step (map capacity_entry [0 ..< n]) (capacity_mmap (48 * n)))"
    using n Suc.prems by (subst e820_loop.simps) simp
  also have "\<dots> = e820_loop capacity_mmap 6192 48 cap (48 * Suc n)
                      (map capacity_entry [0 ..< Suc n])"
    by (simp only: capacity_step [OF n]) (simp add: ac_simps)
  also have "\<dots> = e820_loop capacity_mmap 6192 48 cap 6144 (map capacity_entry [0 ..< 128])"
    using Suc.hyps(2) Suc.prems n by (intro Suc.hyps(1)) simp_all
  finally show ?case .
qed

lemma capacity_last: "last (map capacity_entry [0 ..< 128]) = capacity_entry 127"
proof -
  have "[0 ..< 128] = [0 ..< 127] @ [127 :: nat]" by (rule upt_128)
  then show ?thesis by (simp only: map_append last_snoc list.map)
qed

lemma capacity_full:
  "sb_efi_memmap_to_e820 capacity_mmap 6192 48 128 = Some (map capacity_entry [0 ..< 128])"
proof -
  have "sb_efi_memmap_to_e820 capacity_mmap 6192 48 128
        = e820_loop capacity_mmap 6192 48 128 6144 (map capacity_entry [0 ..< 128])"
    using capacity_run [of 0 128] by (simp add: sb_efi_memmap_to_e820_def)
  also have "\<dots> = Some (map capacity_entry [0 ..< 128])"
    by (subst e820_loop.simps) simp
  finally show ?thesis .
qed

lemma capacity_room:
  "sb_efi_memmap_to_e820 capacity_mmap 6192 48 129
     = Some (map capacity_entry [0 ..< 127]
               @ [\<lparr>addr = 127 * 0x1000, size = 0x2000, type = 3\<rparr>])"
proof -
  have step: "e820_step (map capacity_entry [0 ..< 128]) (capacity_mmap 6144)
              = map capacity_entry [0 ..< 127]
                  @ [\<lparr>addr = 127 * 0x1000, size = 0x2000, type = 3\<rparr>]"
  proof -
    have b: "butlast (map capacity_entry [0 ..< 128]) = map capacity_entry [0 ..< 127]"
    proof -
      have "[0 ..< 128] = [0 ..< 127] @ [127 :: nat]" by (rule upt_128)
      then show ?thesis by (simp only: map_append butlast_snoc list.map)
    qed
    show ?thesis
      unfolding e820_step_def Let_def e820_merges_def capacity_last b
      by (simp add: capacity_mmap_def capacity_entry_def efi_mem_to_e820_type_def
            EfiConventionalMemory_def EfiACPIReclaimMemory_def EfiLoaderCode_def
            EfiLoaderData_def EfiBootServicesCode_def EfiBootServicesData_def)
  qed
  have "sb_efi_memmap_to_e820 capacity_mmap 6192 48 129
        = e820_loop capacity_mmap 6192 48 129 6144 (map capacity_entry [0 ..< 128])"
    using capacity_run [of 0 129] by (simp add: sb_efi_memmap_to_e820_def)
  also have "\<dots> = e820_loop capacity_mmap 6192 48 129 6192
                      (e820_step (map capacity_entry [0 ..< 128]) (capacity_mmap 6144))"
    by (subst e820_loop.simps) simp
  also have "\<dots> = Some (map capacity_entry [0 ..< 127]
                           @ [\<lparr>addr = 127 * 0x1000, size = 0x2000, type = 3\<rparr>])"
    by (subst e820_loop.simps) (simp add: step)
  finally show ?thesis .
qed

text \<open>
  With a stride of zero the loop never leaves the first descriptor: when that descriptor
  describes zero pages it is merged into the first entry over and over, and the conversion
  does not return.
\<close>

lemma zero_page_step:
  "out = [] \<or> out = [\<lparr>addr = 0, size = 0, type = 1\<rparr>] \<Longrightarrow>
   e820_step out (zero_page_mmap p) = [\<lparr>addr = 0, size = 0, type = 1\<rparr>]"
  by (auto simp: e820_step_def e820_merges_def zero_page_mmap_def efi_mem_to_e820_type_def
        EfiConventionalMemory_def EfiLoaderCode_def EfiLoaderData_def
        EfiBootServicesCode_def EfiBootServicesData_def)

lemma zero_stride_loop:
  assumes "e820_loop m e d c p out = Some y"
  shows "\<not> (m = zero_page_mmap \<and> p < e \<and> d = 0 \<and> 2 \<le> c
            \<and> (out = [] \<or> out = [\<lparr>addr = 0, size = 0, type = 1\<rparr>]))"
proof -
  define P where "P = (\<lambda>(m :: nat \<Rightarrow> EFI_MEMORY_DESCRIPTOR) (e :: nat) (d :: nat) (c :: nat)
                          (p :: nat) (out :: E820Entry list) (y :: E820Entry list).
      \<not> (m = zero_page_mmap \<and> p < e \<and> d = 0 \<and> 2 \<le> c
         \<and> (out = [] \<or> out = [\<lparr>addr = 0, size = 0, type = 1\<rparr>])))"
  have "P m e d c p out y"
  proof (rule e820_loop.raw_induct [where P = P, OF _ assms])
    fix loop m e d c p out y
    assume ih: "\<And>m e d c p out y. loop m e d c p out = Some y \<Longrightarrow> P m e d c p out y"
      and eq: "(if p < e \<and> length out < c
                then loop m e d c (p + d) (e820_step out (m p)) else Some out) = Some y"
    show "P m e d c p out y"
      unfolding P_def
    proof
      assume a: "m = zero_page_mmap \<and> p < e \<and> d = 0 \<and> 2 \<le> c
                 \<and> (out = [] \<or> out = [\<lparr>addr = 0, size = 0, type = 1\<rparr>])"
      then have s: "e820_step out (m p) = [\<lparr>addr = 0, size = 0, type = 1\<rparr>]"
        using zero_page_step [of out p] by simp
      from a have "length out < c" by auto
      with a eq have "loop m e d c (p + d) (e820_step out (m p)) = Some y" by simp
      from ih [OF this] a s show False by (simp add: P_def)
    qed
  qed
  then show ?thesis by (simp add: P_def)
qed

lemma zero_stride_never_returns:
  "sb_efi_memmap_to_e820 zero_page_mmap 48 0 128 = None"
proof (cases "sb_efi_memmap_to_e820 zero_page_mmap 48 0 128")
  case None
  then show ?thesis .
next
  case (Some y)
  then have "e820_loop zero_page_mmap 48 0 128 0 [] = Some y"
    by (simp add: sb_efi_memmap_to_e820_def)
  from zero_stride_loop [OF this] show ?thesis by simp
qed

lemma coalesce_unfold:
  "length out < cap \<Longrightarrow>
   e820_coalesce_spec cap out (d # ds)
     = e820_coalesce_spec cap
         (if out \<noteq> [] \<and> type (last out) = e820_kind_spec (Type d)
             \<and> addr (last out) + size (last out) = PhysicalStart d
          then butlast out @ [(last out)\<lparr>size := size (last out) + NumberOfPages d * 4096\<rparr>]
          else out @ [\<lparr>addr = PhysicalStart d, size = NumberOfPages d * 4096,
                        type = e820_kind_spec (Type d)\<rparr>]) ds"
  by simp

text \<open>
  Claim C6.  For a non-zero stride the conversion returns: its type mapping is the
  specification's (RAM kinds to 1, ACPI reclaim to 3, ACPI NVS to 4, everything else
  to 2); its result is the specification's coalescing walk over the descriptors met at
  multiples of \<open>desc_size\<close>, and has at most \<open>max_entries\<close> entries.  The walk stops at
  the first descriptor it meets with \<open>max_entries\<close> entries out, whether or not that
  descriptor could be merged; with fewer entries out it merges the descriptor into the
  previous entry exactly when the mapped types agree and the previous range ends where the
  descriptor starts, summing the sizes, and appends a new entry otherwise.  On the three
  descriptor map of the specification's scenario, with the loader's capacity of 128, it
  emits exactly the two entries \<open>{0x0, 0x3000, 1}\<close> and \<open>{0x4000, 0x1000, 3}\<close>.
\<close>

theorem e820_conversion:
  "0 < desc_size \<Longrightarrow>
     efi_mem_to_e820_type t = e820_kind_spec t
   \<and> sb_efi_memmap_to_e820 mmap mmap_size desc_size max_entries
       = Some (e820_coalesce_spec max_entries []
                 (descriptors_spec mmap mmap_size desc_size))
   \<and> length (e820_coalesce_spec max_entries [] (descriptors_spec mmap mmap_size desc_size))
       \<le> max_entries
   \<and> (max_entries \<le> length out \<longrightarrow> e820_coalesce_spec max_entries out ds = out)
   \<and> (length out < max_entries \<longrightarrow>
        e820_coalesce_spec max_entries out (d # ds)
          = e820_coalesce_spec max_entries
              (if out \<noteq> [] \<and> type (last out) = e820_kind_spec (Type d)
                  \<and> addr (last out) + size (last out) = PhysicalStart d
               then butlast out
                      @ [(last out)\<lparr>size := size (last out) + NumberOfPages d * 4096\<rparr>]
               else out @ [\<lparr>addr = PhysicalStart d, size = NumberOfPages d * 4096,
                             type = e820_kind_spec (Type d)\<rparr>]) ds)
   \<and> sb_efi_memmap_to_e820 (example_mmap desc_size) (3 * desc_size) desc_size 128
       = Some [\<lparr>addr = 0x0, size = 0x3000, type = 1\<rparr>,
               \<lparr>addr = 0x4000, size = 0x1000, type = 3\<rparr>]"
proof -
  assume d: "0 < desc_size"
  have run: "sb_efi_memmap_to_e820 mmap mmap_size desc_size max_entries
             = Some (e820_coalesce_spec max_entries []
                       (descriptors_spec mmap mmap_size desc_size))"
    using e820_loop_spec [OF d, of mmap mmap_size max_entries 0 "[]"]
    by (simp add: sb_efi_memmap_to_e820_def descriptors_spec_def)
  have len: "length (e820_coalesce_spec max_entries []
                       (descriptors_spec mmap mmap_size desc_size)) \<le> max_entries"
    by (rule coalesce_length) simp
  show ?thesis
    by (intro conjI impI)
       (rule efi_mem_to_e820_type_spec, rule run, rule len, erule coalesce_full,
        erule coalesce_unfold, rule example_run [OF d])
qed

text \<open>The scenario with the descriptors 48 bytes apart.\<close>

theorem e820_conversion_witness:
  "sb_efi_memmap_to_e820 (example_mmap 48) 144 48 128
       = Some [\<lparr>addr = 0x0, size = 0x3000, type = 1\<rparr>,
               \<lparr>addr = 0x4000, size = 0x1000, type = 3\<rparr>]
   \<and> e820_coalesce_spec 128 [] (descriptors_spec (example_mmap 48) 144 48)
       = [\<lparr>addr = 0x0, size = 0x3000, type = 1\<rparr>,
          \<lparr>addr = 0x4000, size = 0x1000, type = 3\<rparr>]"
  using e820_conversion [of 48 EfiLoaderCode "example_mmap 48" 144 128 "[]" "[]"]
  by auto

text \<open>
  On \<open>capacity_mmap\<close> with capacity 128 the conversion emits the 128 entries of the first
  128 descriptors and stops.  The last descriptor is not merged, although its mapped type
  is that of the last entry and it starts where the last entry ends: the last entry keeps
  its size of one page.  With room for 129 entries the same descriptor is merged.
\<close>

theorem e820_capacity_counterexample:
  "sb_efi_memmap_to_e820 capacity_mmap (129 * 48) 48 128
     = Some (map capacity_entry [0 ..< 128])
   \<and> last (map capacity_entry [0 ..< 128]) = \<lparr>addr = 0x7F000, size = 0x1000, type = 3\<rparr>
   \<and> efi_mem_to_e820_type (Type (capacity_mmap (128 * 48))) = 3
   \<and> PhysicalStart (capacity_mmap (128 * 48)) = 0x7F000 + 0x1000
   \<and> NumberOfPages (capacity_mmap (128 * 48)) * 4096 = 0x1000
   \<and> sb_efi_memmap_to_e820 capacity_mmap (129 * 48) 48 129
     = Some (map capacity_entry [0 ..< 127] @ [\<lparr>addr = 0x7F000, size = 0x2000, type = 3\<rparr>])"
  using capacity_full capacity_room
  by (simp add: capacity_last)
     (simp add: capacity_entry_def capacity_mmap_def efi_mem_to_e820_type_def
        EfiConventionalMemory_def EfiACPIReclaimMemory_def EfiLoaderCode_def
        EfiLoaderData_def EfiBootServicesCode_def EfiBootServicesData_def)


section \<open>Properties of the Linux loader\<close>

lemma unat_ucast_8_64: "unat (ucast (x :: 8 word) :: 64 word) = unat x"
proof -
  have "uint (ucast x :: 64 word) = uint x"
    by (rule uint_up_ucast) (simp add: is_up)
  then show ?thesis by (simp only: unat_eq_nat_uint)
qed

lemma ucast_8_64_eq_0: "(ucast (x :: 8 word) :: 64 word) = 0 \<longleftrightarrow> x = 0"
proof -
  have "(ucast x :: 64 word) = 0 \<longleftrightarrow> unat (ucast x :: 64 word) = 0"
    by (simp only: unat_eq_0)
  also have "\<dots> \<longleftrightarrow> unat x = 0" by (simp only: unat_ucast_8_64)
  also have "\<dots> \<longleftrightarrow> x = 0" by (simp only: unat_eq_0)
  finally show ?thesis .
qed

lemma ucast_8_64_le: "(4 :: 64 word) \<le> ucast (x :: 8 word) \<longleftrightarrow> 4 \<le> x"
proof -
  have "(4 :: 64 word) \<le> ucast x \<longleftrightarrow> unat (4 :: 64 word) \<le> unat (ucast x :: 64 word)"
    by (rule word_le_nat_alt)
  also have "\<dots> \<longleftrightarrow> unat (4 :: 8 word) \<le> unat x"
    by (simp only: unat_ucast_8_64) simp
  also have "\<dots> \<longleftrightarrow> 4 \<le> x"
    by (rule word_le_nat_alt [symmetric])
  finally show ?thesis .
qed


lemma sizeof_LinuxSetupHeader: "sizeof_fields LinuxSetupHeader = 0x77"
  by (simp add: LinuxSetupHeader_def)

lemma hdr_offs:
  "hdr_off ''setup_sects'' = 0x1F1"
  "hdr_off ''handover_offset'' = 0x264"
  "hdr_off ''pref_address'' = 0x258"
  "hdr_off ''relocatable_kernel'' = 0x234"
  "hdr_off ''type_of_loader'' = 0x210"
  by (simp_all add: hdr_off_def LinuxSetupHeader_def)

lemma test_kernel_reads:
  "byte_at (test_kernel ss ho) 0x1F1 = ss"
  "byte_at (test_kernel ss ho) 0x234 = 0"
  by (simp_all add: test_kernel_def byte_at_def nth_append le_bytes_def)

lemma test_kernel_rd32: "rd32 (test_kernel 1 0x190) 0x264 = 0x190"
  by (simp add: test_kernel_def rd32_def byte_at_def nth_append le_bytes_def upt_rec_numeral)

lemma setup_size_of_eq:
  "setup_size_of ki =
     ((if byte_at ki 0x1F1 = 0 then 4 else ucast (byte_at ki 0x1F1)) + 1) * 512"
proof -
  have "(ucast (byte_at ki 0x1F1) :: UINTN) = 0 \<longleftrightarrow> byte_at ki 0x1F1 = 0"
    by (rule ucast_8_64_eq_0)
  then show ?thesis
    by (simp add: setup_size_of_def hdr_offs Let_def)
qed

lemma setup_size_spec_agrees:
  assumes "s = 0 \<or> 4 \<le> s"
  shows "((if s = 0 then 4 else ucast s) + 1) * 512 = setup_size_spec s"
proof (cases "s = 0")
  case True
  then show ?thesis by (simp add: setup_size_spec_def)
next
  case False
  with assms have "4 \<le> s" by simp
  then have "(4 :: UINTN) \<le> ucast s"
    by (simp only: ucast_8_64_le)
  then have "max (ucast s) (4 :: UINTN) = ucast s" by (simp add: max_def)
  with False show ?thesis by (simp add: setup_size_spec_def)
qed

lemma handover_jump:
  assumes "boot_efi_handover bs cl kernel_buf ki ia isz st = (Jumped entry bp, st')"
  shows "entry = kernel_buf + setup_size_of ki
                   + ucast (rd32 ki (hdr_off ''handover_offset'')) + 512"
  using assms
  by (auto simp: boot_efi_handover_def Let_def split: if_splits prod.splits)

text \<open>
  Claim C2, as the code has it.  Whenever the EFI handover path transfers control, the
  entry point is \<open>kernel_buf + setup_size + handover_offset + 512\<close>, where
  \<open>setup_size = (s + 1) \<times> 512\<close> and \<open>s\<close> is \<open>setup_sects\<close>, replaced by 4 only
  when it is 0.  This is the specification's \<open>(max (setup_sects, 4) + 1) \<times> 512\<close> when
  \<open>setup_sects\<close> is 0 or at least 4.
\<close>

theorem handover_entry_point:
  "boot_efi_handover bs cl kernel_buf ki ia isz st = (Jumped entry bp, st') \<Longrightarrow>
     entry = kernel_buf + setup_size_of ki + ucast (rd32 ki 0x264) + 512
   \<and> setup_size_of ki
       = ((if byte_at ki 0x1F1 = 0 then 4 else ucast (byte_at ki 0x1F1)) + 1) * 512
   \<and> (byte_at ki 0x1F1 = 0 \<or> 4 \<le> byte_at ki 0x1F1
        \<longrightarrow> setup_size_of ki = setup_size_spec (byte_at ki 0x1F1))"
  using handover_jump [of bs cl kernel_buf ki ia isz st entry bp st']
    setup_size_of_eq [of ki] setup_size_spec_agrees [of "byte_at ki 0x1F1"]
  by (simp add: hdr_offs)

lemma test_handover_run:
  "boot_efi_handover (test_firmware 2 0) [] 0x1000000 (test_kernel 1 0x190) 0 0 ((0, 0), [])
   = (Jumped 0x1000790
        (fst (bp_cmdline_initrd (test_firmware 2 0) [] 0 0 (bp_init (test_kernel 1 0x190))
               ((0, 0), [CallAllocatePool (of_nat (sizeof_fields LinuxBootParams))]))),
      snd (bp_cmdline_initrd (test_firmware 2 0) [] 0 0 (bp_init (test_kernel 1 0x190))
               ((0, 0), [CallAllocatePool (of_nat (sizeof_fields LinuxBootParams))])))"
  by (simp add: boot_efi_handover_def hdr_offs test_kernel_rd32 setup_size_of_eq
      test_kernel_reads do_AllocatePool_def test_firmware_def Let_def split_beta)

theorem handover_entry_point_witness:
  "(0x1000790 :: UINT64) = 0x1000000 + setup_size_of (test_kernel 1 0x190) + 0x190 + 512
   \<and> setup_size_of (test_kernel 1 0x190) = 1024"
  using handover_entry_point [OF test_handover_run]
  by (simp add: test_kernel_rd32 test_kernel_reads)

text \<open>
  For a kernel with \<open>setup_sects = 1\<close> and handover offset \<open>0x190\<close> loaded at
  \<open>0x1000000\<close> the path jumps to \<open>0x1000790\<close>: the setup size used is 1024 bytes,
  not the 2560 bytes of the claim, which would give \<open>0x1000D90\<close>.
\<close>

theorem handover_entry_counterexample:
  "jump_target (fst (boot_efi_handover (test_firmware 2 0) [] 0x1000000
                       (test_kernel 1 0x190) 0 0 ((0, 0), [])))
     = Some 0x1000790
   \<and> 0x1000000 + setup_size_spec 1 + 0x190 + 512 = (0x1000D90 :: UINT64)
   \<and> setup_size_of (test_kernel 1 0x190) = 1024
   \<and> setup_size_spec 1 = 2560"
  by (simp add: test_handover_run jump_target_def setup_size_spec_def setup_size_of_eq
      test_kernel_reads)

text \<open>
  Claim C1.  The declaration of \<open>LinuxBootParams\<close> pads up to \<open>0x1C0\<close> before
  \<open>e820_entries\<close>, not up to \<open>0x1E8\<close> as its own comments say: in the packed
  structure the count lies at byte offset \<open>0x1C0\<close>, the setup header occupies
  \<open>0x1C9\<close> to \<open>0x23F\<close>, and the structure is 4056 bytes long, 40 short of the
  4096 bytes that the header's \<open>_Static_assert\<close> demands.
\<close>

theorem LinuxBootParams_layout:
  "offsetof LinuxBootParams ''e820_entries'' = 0x1C0
   \<and> offsetof LinuxBootParams ''hdr'' = 0x1C9
   \<and> offsetof LinuxBootParams ''hdr'' + sizeof_fields LinuxSetupHeader - 1 = 0x23F
   \<and> sizeof_fields LinuxBootParams = 4056"
  by (simp add: LinuxBootParams_def sizeof_LinuxSetupHeader)

section \<open>The legacy path and \<open>ExitBootServices\<close>\<close>

lemma sizeof_LinuxBootParams: "sizeof_fields LinuxBootParams = 4056"
  by (simp add: LinuxBootParams_def sizeof_LinuxSetupHeader)

lemma test_kernel_rd64: "rd64 (test_kernel ss ho) 0x258 = 0"
  by (simp add: test_kernel_def rd64_def rd32_def byte_at_def nth_append le_bytes_def)

lemma status_simps:
  "EFI_ERROR EFI_INVALID_PARAMETER" "\<not> EFI_ERROR EFI_SUCCESS"
  by (simp_all add: EFI_ERROR_def EFI_INVALID_PARAMETER_def EFIERR_def EFI_SUCCESS_def bit_or_iff)

lemma example_conv:
  "sb_efi_memmap_to_e820 (example_mmap 48) 144 48 128
         = Some [\<lparr>addr = 0x0, size = 0x3000, type = 1\<rparr>,
                 \<lparr>addr = 0x4000, size = 0x1000, type = 3\<rparr>]"
  using example_run [of 48] by simp

lemmas legacy_run_simps =
  boot_legacy_bzimage_def legacy_memory_map_and_exit_def
  legacy_exit_boot_services_def legacy_alloc_kernel_def bp_cmdline_initrd_def
  do_AllocatePool_def do_AllocatePages_def do_GetMemoryMap_def do_ExitBootServices_def
  test_firmware_def hdr_offs test_kernel_rd64 test_kernel_reads status_simps example_conv
  sb_strlen8_def Let_def split_beta sizeof_LinuxBootParams setup_size_of_eq

lemma calls_from_exit_skip:
  "no_exit_calls evs \<Longrightarrow> calls_from_exit (evs @ post) = calls_from_exit post"
  by (simp add: calls_from_exit_def no_exit_calls_def dropWhile_append2)

lemma calls_from_exit_none: "no_exit_calls evs \<Longrightarrow> calls_from_exit evs = []"
  by (simp add: calls_from_exit_def no_exit_calls_def)

lemma calls_from_exit_head:
  "calls_from_exit (CallExitBootServices k s # evs) = CallExitBootServices k s # evs"
  by (simp add: calls_from_exit_def is_ExitBootServices_def)

lemma no_exit_calls_simps:
  "no_exit_calls []"
  "no_exit_calls (CallAllocatePool n # evs) = no_exit_calls evs"
  "no_exit_calls (CallAllocatePages t n a # evs) = no_exit_calls evs"
  "no_exit_calls (CallGetMemoryMap m b g # evs) = no_exit_calls evs"
  "no_exit_calls (xs @ ys) = (no_exit_calls xs \<and> no_exit_calls ys)"
  by (auto simp: no_exit_calls_def is_ExitBootServices_def)

lemma do_AllocatePool_trace:
  "\<exists>r f'. do_AllocatePool bs n (f, tr) = (r, (f', tr @ [CallAllocatePool n]))"
  by (simp add: do_AllocatePool_def split_beta)

lemma do_AllocatePages_trace:
  "\<exists>r f'. do_AllocatePages bs t n a (f, tr) = (r, (f', tr @ [CallAllocatePages t n a]))"
  by (simp add: do_AllocatePages_def split_beta)

lemma do_GetMemoryMap_trace:
  "\<exists>r f'. do_GetMemoryMap bs n b (f, tr) = (r, (f', tr @ [CallGetMemoryMap n b (mm_status r)]))"
  by (simp add: do_GetMemoryMap_def split_beta)

lemma do_ExitBootServices_trace:
  "\<exists>r f'. do_ExitBootServices bs k (f, tr) = (r, (f', tr @ [CallExitBootServices k r]))"
  by (simp add: do_ExitBootServices_def split_beta)

lemma legacy_alloc_kernel_trace:
  "\<exists>r f' evs. legacy_alloc_kernel bs ki n a (f, tr) = (r, (f', tr @ evs)) \<and> no_exit_calls evs"
proof -
  obtain s1 a1 f1 where 1:
    "do_AllocatePages bs AllocateAddress n a (f, tr)
       = ((s1, a1), (f1, tr @ [CallAllocatePages AllocateAddress n a]))"
    using do_AllocatePages_trace [of bs AllocateAddress n a f tr] by auto
  obtain r2 f2 where 2:
    "do_AllocatePages bs AllocateAnyPages n a1 (f1, tr @ [CallAllocatePages AllocateAddress n a])
       = (r2, (f2, (tr @ [CallAllocatePages AllocateAddress n a])
                     @ [CallAllocatePages AllocateAnyPages n a1]))"
    using do_AllocatePages_trace [of bs AllocateAnyPages n a1 f1
        "tr @ [CallAllocatePages AllocateAddress n a]"] by auto
  show ?thesis
  proof (cases "EFI_ERROR s1 \<and> byte_at ki (hdr_off ''relocatable_kernel'') \<noteq> 0")
    case True
    then have "legacy_alloc_kernel bs ki n a (f, tr)
       = (r2, (f2, tr @ [CallAllocatePages AllocateAddress n a,
                         CallAllocatePages AllocateAnyPages n a1]))"
      by (simp add: legacy_alloc_kernel_def 1 2 [simplified])
    then show ?thesis by (metis no_exit_calls_simps(1,3))
  next
    case False
    then have "legacy_alloc_kernel bs ki n a (f, tr)
       = ((s1, a1), (f1, tr @ [CallAllocatePages AllocateAddress n a]))"
      by (auto simp: legacy_alloc_kernel_def 1)
    then show ?thesis by (metis no_exit_calls_simps(1,3))
  qed
qed

lemma bp_cmdline_initrd_trace:
  "\<exists>bp' f' evs. bp_cmdline_initrd bs cl ia isz bp (f, tr) = (bp', (f', tr @ evs))
      \<and> no_exit_calls evs"
proof -
  obtain r f1 where 1:
    "do_AllocatePool bs (of_nat (sb_strlen8 cl) + 1) (f, tr)
       = (r, (f1, tr @ [CallAllocatePool (of_nat (sb_strlen8 cl) + 1)]))"
    using do_AllocatePool_trace [of bs "of_nat (sb_strlen8 cl) + 1" f tr] by auto
  have "\<exists>bp'. bp_cmdline_initrd bs cl ia isz bp (f, tr)
          = (bp', (f1, tr @ [CallAllocatePool (of_nat (sb_strlen8 cl) + 1)]))"
    by (simp add: bp_cmdline_initrd_def 1 Let_def)
  then show ?thesis by (metis no_exit_calls_simps(1,2))
qed

lemma legacy_exit_trace:
  "\<exists>status f' post. legacy_exit_boot_services bs key (f, tr) = (status, (f', tr @ post))
      \<and> exit_block_shape post status"
proof -
  obtain s1 f1 where 1:
    "do_ExitBootServices bs key (f, tr) = (s1, (f1, tr @ [CallExitBootServices key s1]))"
    using do_ExitBootServices_trace [of bs key f tr] by auto
  let ?t1 = "tr @ [CallExitBootServices key s1]"
  obtain r1 f2 where 2:
    "do_GetMemoryMap bs 0 False (f1, ?t1)
       = (r1, (f2, ?t1 @ [CallGetMemoryMap 0 False (mm_status r1)]))"
    using do_GetMemoryMap_trace [of bs 0 False f1 ?t1] by auto
  let ?t2 = "?t1 @ [CallGetMemoryMap 0 False (mm_status r1)]"
  let ?n = "mm_size r1 + mm_desc_size r1 * 4"
  obtain r2 f3 where 3:
    "do_GetMemoryMap bs ?n True (f2, ?t2)
       = (r2, (f3, ?t2 @ [CallGetMemoryMap ?n True (mm_status r2)]))"
    using do_GetMemoryMap_trace [of bs ?n True f2 ?t2] by auto
  let ?t3 = "?t2 @ [CallGetMemoryMap ?n True (mm_status r2)]"
  obtain s4 f4 where 4:
    "do_ExitBootServices bs (mm_key r2) (f3, ?t3)
       = (s4, (f4, ?t3 @ [CallExitBootServices (mm_key r2) s4]))"
    using do_ExitBootServices_trace [of bs "mm_key r2" f3 ?t3] by auto
  show ?thesis
  proof (cases "EFI_ERROR s1")
    case False
    then have "legacy_exit_boot_services bs key (f, tr)
                 = (s1, (f1, tr @ [CallExitBootServices key s1]))"
      by (simp add: legacy_exit_boot_services_def 1)
    moreover have "exit_block_shape [CallExitBootServices key s1] s1"
      using False by (simp add: exit_block_shape_def)
    ultimately show ?thesis by blast
  next
    case True
    note e1 = this
    show ?thesis
    proof (cases "EFI_ERROR (mm_status r2)")
      case True
      then have "legacy_exit_boot_services bs key (f, tr)
          = (mm_status r2, (f3, tr @ [CallExitBootServices key s1,
               CallGetMemoryMap 0 False (mm_status r1),
               CallGetMemoryMap ?n True (mm_status r2)]))"
        using e1 by (simp add: legacy_exit_boot_services_def 1 2 [simplified] 3 [simplified] Let_def)
      moreover have "exit_block_shape [CallExitBootServices key s1,
               CallGetMemoryMap 0 False (mm_status r1),
               CallGetMemoryMap ?n True (mm_status r2)] (mm_status r2)"
        using e1 True by (simp add: exit_block_shape_def)
      ultimately show ?thesis by blast
    next
      case False
      then have "legacy_exit_boot_services bs key (f, tr)
          = (s4, (f4, tr @ [CallExitBootServices key s1,
               CallGetMemoryMap 0 False (mm_status r1),
               CallGetMemoryMap ?n True (mm_status r2),
               CallExitBootServices (mm_key r2) s4]))"
        using e1 by (simp add: legacy_exit_boot_services_def 1 2 [simplified] 3 [simplified] 4 [simplified] Let_def)
      moreover have "exit_block_shape [CallExitBootServices key s1,
               CallGetMemoryMap 0 False (mm_status r1),
               CallGetMemoryMap ?n True (mm_status r2),
               CallExitBootServices (mm_key r2) s4] s4"
        using e1 False by (simp add: exit_block_shape_def)
      ultimately show ?thesis by blast
    qed
  qed
qed

lemma legacy_shape_prepend:
  assumes "no_exit_calls evs0" "legacy_shape evs outcome"
  shows "legacy_shape (evs0 @ evs) outcome"
proof -
  from assms(2) obtain pre post where p: "evs = pre @ post" "no_exit_calls pre"
    "(post = [] \<and> (\<exists>s. outcome = Returned s))
           \<or> (\<exists>status. exit_block_shape post status
                 \<and> (if EFI_ERROR status then outcome = Returned status
                      else (\<exists>a bp. outcome = Jumped a bp)))"
    unfolding legacy_shape_def by blast
  have "evs0 @ evs = (evs0 @ pre) @ post" using p(1) by simp
  moreover have "no_exit_calls (evs0 @ pre)" using assms(1) p(2) by (simp add: no_exit_calls_simps)
  ultimately show ?thesis unfolding legacy_shape_def using p(3) by blast
qed

lemma legacy_shape_returned:
  "no_exit_calls evs \<Longrightarrow> legacy_shape evs (Returned s)"
  unfolding legacy_shape_def by (metis append_Nil2)

lemma legacy_shape_exit:
  "exit_block_shape post status \<Longrightarrow>
   legacy_shape post (if EFI_ERROR status then Returned status else Jumped a bp)"
  unfolding legacy_shape_def
  by (rule exI [of _ "[]"], rule exI [of _ post]) (auto simp: no_exit_calls_simps)

lemma legacy_memory_map_and_exit_shape:
  assumes run: "legacy_memory_map_and_exit bs ka bp (f, tr) = Some (outcome, (f', tr'))"
  shows "\<exists>evs. tr' = tr @ evs \<and> legacy_shape evs outcome"
proof -
  obtain r0 f1 where 1:
    "do_GetMemoryMap bs 0 False (f, tr) = (r0, (f1, tr @ [CallGetMemoryMap 0 False (mm_status r0)]))"
    using do_GetMemoryMap_trace [of bs 0 False f tr] by auto
  let ?n = "mm_size r0 + mm_desc_size r0 * 4"
  let ?e1 = "CallGetMemoryMap 0 False (mm_status r0)"
  let ?e2 = "CallAllocatePool (of_nat ?n)"
  obtain m f2 where 2:
    "do_AllocatePool bs (of_nat ?n) (f1, tr @ [?e1]) = (m, (f2, tr @ [?e1, ?e2]))"
    using do_AllocatePool_trace [of bs "of_nat ?n" f1 "tr @ [?e1]"] by auto
  obtain r f3 where 3:
    "do_GetMemoryMap bs ?n True (f2, tr @ [?e1, ?e2])
       = (r, (f3, tr @ [?e1, ?e2, CallGetMemoryMap ?n True (mm_status r)]))"
    using do_GetMemoryMap_trace [of bs ?n True f2 "tr @ [?e1, ?e2]"] by auto
  let ?e3 = "CallGetMemoryMap ?n True (mm_status r)"
  obtain status f4 post where 4:
    "legacy_exit_boot_services bs (mm_key r) (f3, tr @ [?e1, ?e2, ?e3])
       = (status, (f4, (tr @ [?e1, ?e2, ?e3]) @ post))"
    and shape: "exit_block_shape post status"
    using legacy_exit_trace [of bs "mm_key r" f3 "tr @ [?e1, ?e2, ?e3]"] by auto
  show ?thesis
  proof (cases "m = 0")
    case True
    with run have "outcome = Returned EFI_OUT_OF_RESOURCES" "tr' = tr @ [?e1, ?e2]"
      by (simp_all add: legacy_memory_map_and_exit_def 1 2 [simplified] Let_def)
    then show ?thesis by (simp add: legacy_shape_returned no_exit_calls_simps)
  next
    case False
    note m = this
    show ?thesis
    proof (cases "EFI_ERROR (mm_status r)")
      case True
      with run m have "outcome = Returned (mm_status r)" "tr' = tr @ [?e1, ?e2, ?e3]"
        by (simp_all add: legacy_memory_map_and_exit_def 1 2 [simplified] 3 [simplified] Let_def)
      then show ?thesis by (simp add: legacy_shape_returned no_exit_calls_simps)
    next
      case False
      note ok = this
      from run m ok obtain e820 where
        conv: "sb_efi_memmap_to_e820 (mm_map r) (mm_size r) (mm_desc_size r) 128 = Some e820"
        by (cases "sb_efi_memmap_to_e820 (mm_map r) (mm_size r) (mm_desc_size r) 128")
           (simp_all add: legacy_memory_map_and_exit_def 1 2 [simplified] 3 [simplified] Let_def)
      let ?bp = "write_bytes (write_bytes bp (offsetof LinuxBootParams ''e820_entries'')
                    [of_nat (length e820)]) 0x2D0 (concat (map E820Entry_bytes e820))"
      from run m ok conv
      have out: "outcome = (if EFI_ERROR status then Returned status else Jumped ka ?bp)"
        and tr': "tr' = tr @ [?e1, ?e2, ?e3] @ post"
        by (simp_all add: legacy_memory_map_and_exit_def 1 2 [simplified] 3 [simplified] 4 [simplified] Let_def
            split: if_splits)
      have "legacy_shape post outcome"
        unfolding out by (rule legacy_shape_exit [OF shape])
      then have "legacy_shape ([?e1, ?e2, ?e3] @ post) outcome"
        by (rule legacy_shape_prepend [rotated]) (simp add: no_exit_calls_simps)
      with tr' show ?thesis by blast
    qed
  qed
qed

lemma boot_legacy_bzimage_shape:
  assumes run: "boot_legacy_bzimage bs cl kb ki ks ia isz (f, tr) = Some (outcome, (f', tr'))"
  shows "\<exists>evs. tr' = tr @ evs \<and> legacy_shape evs outcome"
proof -
  let ?e1 = "CallAllocatePool (of_nat (sizeof_fields LinuxBootParams))"
  obtain p f1 where 1:
    "do_AllocatePool bs (of_nat (sizeof_fields LinuxBootParams)) (f, tr) = (p, (f1, tr @ [?e1]))"
    using do_AllocatePool_trace [of bs "of_nat (sizeof_fields LinuxBootParams)" f tr] by auto
  let ?ka = "if rd64 ki (hdr_off ''pref_address'') = 0 then 0x100000
             else rd64 ki (hdr_off ''pref_address'')"
  let ?kp = "(ks - setup_size_of ki + 4095) div 4096"
  obtain status ka f2 evs2 where 2:
    "legacy_alloc_kernel bs ki ?kp ?ka (f1, tr @ [?e1]) = ((status, ka), (f2, (tr @ [?e1]) @ evs2))"
    and n2: "no_exit_calls evs2"
    using legacy_alloc_kernel_trace [of bs ki ?kp ?ka f1 "tr @ [?e1]"] by auto
  let ?bp1 = "write_bytes (bp_init ki) (bp_hdr_off ''code32_start'')
                (le_bytes 4 (ucast ka :: UINT32))"
  obtain bp2 f3 evs3 where 3:
    "bp_cmdline_initrd bs cl ia isz ?bp1 (f2, (tr @ [?e1]) @ evs2)
       = (bp2, (f3, ((tr @ [?e1]) @ evs2) @ evs3))"
    and n3: "no_exit_calls evs3"
    using bp_cmdline_initrd_trace [of bs cl ia isz ?bp1 f2 "(tr @ [?e1]) @ evs2"] by auto
  show ?thesis
  proof (cases "p = 0")
    case True
    with run have "outcome = Returned EFI_OUT_OF_RESOURCES" "tr' = tr @ [?e1]"
      by (simp_all add: boot_legacy_bzimage_def 1 Let_def)
    then show ?thesis by (simp add: legacy_shape_returned no_exit_calls_simps)
  next
    case False
    note p = this
    show ?thesis
    proof (cases "EFI_ERROR status")
      case True
      with run p have "outcome = Returned status" "tr' = tr @ ([?e1] @ evs2)"
        by (simp_all add: boot_legacy_bzimage_def 1 2 [simplified] Let_def)
      then show ?thesis using n2 by (simp add: legacy_shape_returned no_exit_calls_simps)
    next
      case False
      with run p have
        "legacy_memory_map_and_exit bs ka bp2 (f3, ((tr @ [?e1]) @ evs2) @ evs3)
           = Some (outcome, (f', tr'))"
        by (simp add: boot_legacy_bzimage_def 1 2 [simplified] 3 [simplified] Let_def)
      from legacy_memory_map_and_exit_shape [OF this]
      obtain evs where e: "tr' = (((tr @ [?e1]) @ evs2) @ evs3) @ evs"
        and sh: "legacy_shape evs outcome"
        by auto
      have "legacy_shape (([?e1] @ evs2 @ evs3) @ evs) outcome"
        by (rule legacy_shape_prepend [OF _ sh]) (simp add: no_exit_calls_simps n2 n3)
      moreover have "tr' = tr @ (([?e1] @ evs2 @ evs3) @ evs)" using e by simp
      ultimately show ?thesis by blast
    qed
  qed
qed


text \<open>
  Claim C7, as the code has it.  Every run of the legacy path that returns or jumps calls
  \<open>ExitBootServices\<close> at most twice.  From the first such call on, the firmware calls are
  exactly: that call alone when it succeeds (then the kernel is entered); or, when it
  fails, the two \<open>GetMemoryMap\<close> calls of the re-fetch (the second into the buffer
  already allocated, no allocation in between), followed by one more
  \<open>ExitBootServices\<close> only when the re-fetch succeeded.  When the re-fetch fails its
  status is returned without any retry; when the retry fails its status is returned;
  there is never a second retry.
\<close>

theorem legacy_exit_boot_services_retry:
  "boot_legacy_bzimage bs cl kb ki ks ia isz (f, tr) = Some (outcome, (f', tr')) \<Longrightarrow>
     take (length tr) tr' = tr
   \<and> length (filter is_ExitBootServices (drop (length tr) tr')) \<le> 2
   \<and> (let post = calls_from_exit (drop (length tr) tr') in
        (post = [] \<and> (\<exists>s. outcome = Returned s))
      \<or> (\<exists>k s. post = [CallExitBootServices k s] \<and> \<not> EFI_ERROR s
             \<and> (\<exists>a bp. outcome = Jumped a bp))
      \<or> (\<exists>k s n g1 g2. post = [CallExitBootServices k s, CallGetMemoryMap 0 False g1,
                                  CallGetMemoryMap n True g2]
             \<and> EFI_ERROR s \<and> EFI_ERROR g2 \<and> outcome = Returned g2)
      \<or> (\<exists>k s n g1 g2 k2 s2. post = [CallExitBootServices k s, CallGetMemoryMap 0 False g1,
                                  CallGetMemoryMap n True g2, CallExitBootServices k2 s2]
             \<and> EFI_ERROR s \<and> \<not> EFI_ERROR g2
             \<and> (if EFI_ERROR s2 then outcome = Returned s2
                  else (\<exists>a bp. outcome = Jumped a bp))))"
proof -
  assume run: "boot_legacy_bzimage bs cl kb ki ks ia isz (f, tr) = Some (outcome, (f', tr'))"
  from boot_legacy_bzimage_shape [OF run]
  obtain evs where tr': "tr' = tr @ evs" and sh: "legacy_shape evs outcome" by auto
  from sh obtain pre post where evs: "evs = pre @ post" and pre: "no_exit_calls pre"
    and cases: "(post = [] \<and> (\<exists>s. outcome = Returned s))
           \<or> (\<exists>status. exit_block_shape post status
                 \<and> (if EFI_ERROR status then outcome = Returned status
                      else (\<exists>a bp. outcome = Jumped a bp)))"
    unfolding legacy_shape_def by auto
  have d: "drop (length tr) tr' = pre @ post" by (simp add: tr' evs)
  have t: "take (length tr) tr' = tr" by (simp add: tr')
  have fl: "filter is_ExitBootServices (drop (length tr) tr') = filter is_ExitBootServices post"
    using pre by (simp add: d no_exit_calls_def)
  have c: "calls_from_exit (drop (length tr) tr') = calls_from_exit post"
    by (simp only: d calls_from_exit_skip [OF pre])
  from cases show ?thesis
  proof
    assume a: "post = [] \<and> (\<exists>s. outcome = Returned s)"
    then have "calls_from_exit post = []" by (simp add: calls_from_exit_def)
    with a show ?thesis by (simp add: t fl c)
  next
    assume "\<exists>status. exit_block_shape post status
                 \<and> (if EFI_ERROR status then outcome = Returned status
                      else (\<exists>a bp. outcome = Jumped a bp))"
    then obtain status where sh: "exit_block_shape post status"
      and out: "if EFI_ERROR status then outcome = Returned status
                      else (\<exists>a bp. outcome = Jumped a bp)" by auto
    from sh show ?thesis
      unfolding exit_block_shape_def
    proof (elim disjE exE conjE)
      fix k assume p: "post = [CallExitBootServices k status]" and ne: "\<not> EFI_ERROR status"
      show ?thesis
        using out ne
        by (simp add: t fl c p calls_from_exit_head is_ExitBootServices_def)
    next
      fix k s n g1
      assume p: "post = [CallExitBootServices k s, CallGetMemoryMap 0 False g1,
                              CallGetMemoryMap n True status]"
        and e: "EFI_ERROR s" "EFI_ERROR status"
      show ?thesis
        using out e
        by (simp add: t fl c p calls_from_exit_head is_ExitBootServices_def)
    next
      fix k s n g1 g2 k2
      assume p: "post = [CallExitBootServices k s, CallGetMemoryMap 0 False g1,
                              CallGetMemoryMap n True g2, CallExitBootServices k2 status]"
        and e: "EFI_ERROR s" "\<not> EFI_ERROR g2"
      show ?thesis
        using out e
        by (simp add: t fl c p calls_from_exit_head is_ExitBootServices_def)
    qed
  qed
qed

lemma test_legacy_run_retry:
  "\<exists>bp. boot_legacy_bzimage (test_firmware 4 1) [] 0x1000000 (test_kernel 1 0) 4096 0 0
         ((0, 0), [])
    = Some (Jumped 0x100000 bp, ((4, 2),
        [CallAllocatePool 4056, CallAllocatePages AllocateAddress 1 0x100000,
         CallAllocatePool 1, CallGetMemoryMap 0 False EFI_SUCCESS,
         CallAllocatePool 336, CallGetMemoryMap 336 True EFI_SUCCESS,
         CallExitBootServices 1 EFI_INVALID_PARAMETER,
         CallGetMemoryMap 0 False EFI_SUCCESS,
         CallGetMemoryMap 336 True EFI_SUCCESS,
         CallExitBootServices 3 EFI_SUCCESS]))"
  by (simp add: legacy_run_simps)

theorem legacy_exit_boot_services_retry_witness:
  "length (filter is_ExitBootServices
        [CallAllocatePool 4056, CallAllocatePages AllocateAddress 1 0x100000,
         CallAllocatePool 1, CallGetMemoryMap 0 False EFI_SUCCESS,
         CallAllocatePool 336, CallGetMemoryMap 336 True EFI_SUCCESS,
         CallExitBootServices 1 EFI_INVALID_PARAMETER,
         CallGetMemoryMap 0 False EFI_SUCCESS,
         CallGetMemoryMap 336 True EFI_SUCCESS,
         CallExitBootServices 3 EFI_SUCCESS]) \<le> 2"
proof -
  from test_legacy_run_retry obtain bp where
    "boot_legacy_bzimage (test_firmware 4 1) [] 0x1000000 (test_kernel 1 0) 4096 0 0
         ((0, 0), [])
    = Some (Jumped 0x100000 bp, ((4, 2),
        [CallAllocatePool 4056, CallAllocatePages AllocateAddress 1 0x100000,
         CallAllocatePool 1, CallGetMemoryMap 0 False EFI_SUCCESS,
         CallAllocatePool 336, CallGetMemoryMap 336 True EFI_SUCCESS,
         CallExitBootServices 1 EFI_INVALID_PARAMETER,
         CallGetMemoryMap 0 False EFI_SUCCESS,
         CallGetMemoryMap 336 True EFI_SUCCESS,
         CallExitBootServices 3 EFI_SUCCESS]))" ..
  from legacy_exit_boot_services_retry [OF this] show ?thesis by simp
qed

text \<open>
  With a firmware whose \<open>GetMemoryMap\<close> fails from its third call on and whose first
  \<open>ExitBootServices\<close> fails, the path returns the error of the re-fetch: the trace holds
  one call of \<open>ExitBootServices\<close> and no retry.
\<close>

theorem legacy_retry_counterexample:
  "boot_legacy_bzimage (test_firmware 2 1) [] 0x1000000 (test_kernel 1 0) 4096 0 0
         ((0, 0), [])
    = Some (Returned EFI_INVALID_PARAMETER, ((4, 1),
        [CallAllocatePool 4056, CallAllocatePages AllocateAddress 1 0x100000,
         CallAllocatePool 1, CallGetMemoryMap 0 False EFI_SUCCESS,
         CallAllocatePool 336, CallGetMemoryMap 336 True EFI_SUCCESS,
         CallExitBootServices 1 EFI_INVALID_PARAMETER,
         CallGetMemoryMap 0 False EFI_INVALID_PARAMETER,
         CallGetMemoryMap 336 True EFI_INVALID_PARAMETER]))
   \<and> EFI_ERROR EFI_INVALID_PARAMETER"
  by (simp add: legacy_run_simps)

section \<open>Properties of the VFS mount table\<close>

lemma find_mount_from_None:
  "find_mount_from st dev i = None
     \<longleftrightarrow> (\<forall>j. i \<le> j \<and> j < mount_count st \<longrightarrow> device (mounts st ! j) \<noteq> dev)"
proof (induction st dev i rule: find_mount_from.induct)
  case (1 st dev i)
  show ?case
  proof (cases "i < mount_count st")
    case False
    then have "find_mount_from st dev i = None"
      by (subst find_mount_from.simps) simp
    moreover have "\<forall>j. i \<le> j \<and> j < mount_count st \<longrightarrow> device (mounts st ! j) \<noteq> dev"
      using False by auto
    ultimately show ?thesis by simp
  next
    case True
    note lt = this
    show ?thesis
    proof (cases "device (mounts st ! i) = dev")
      case True
      then have "find_mount_from st dev i = Some i"
        using lt by (subst find_mount_from.simps) simp
      moreover have "\<not> (\<forall>j. i \<le> j \<and> j < mount_count st \<longrightarrow> device (mounts st ! j) \<noteq> dev)"
        using lt True by auto
      ultimately show ?thesis by simp
    next
      case False
      have a: "find_mount_from st dev i = find_mount_from st dev (Suc i)"
        using lt False by (subst find_mount_from.simps) simp
      have b: "(find_mount_from st dev (Suc i) = None) =
          (\<forall>j. Suc i \<le> j \<and> j < mount_count st \<longrightarrow> device (mounts st ! j) \<noteq> dev)"
        by (rule "1.IH" [OF lt False])
      have c: "(\<forall>j. Suc i \<le> j \<and> j < mount_count st \<longrightarrow> device (mounts st ! j) \<noteq> dev)
          \<longleftrightarrow> (\<forall>j. i \<le> j \<and> j < mount_count st \<longrightarrow> device (mounts st ! j) \<noteq> dev)"
      proof
        assume h: "\<forall>j. Suc i \<le> j \<and> j < mount_count st \<longrightarrow> device (mounts st ! j) \<noteq> dev"
        show "\<forall>j. i \<le> j \<and> j < mount_count st \<longrightarrow> device (mounts st ! j) \<noteq> dev"
        proof (intro allI impI)
          fix j assume j: "i \<le> j \<and> j < mount_count st"
          show "device (mounts st ! j) \<noteq> dev"
          proof (cases "j = i")
            case True
            then show ?thesis using False by simp
          next
            case False
            then have "Suc i \<le> j" using j by simp
            then show ?thesis using h j by simp
          qed
        qed
      next
        assume h: "\<forall>j. i \<le> j \<and> j < mount_count st \<longrightarrow> device (mounts st ! j) \<noteq> dev"
        show "\<forall>j. Suc i \<le> j \<and> j < mount_count st \<longrightarrow> device (mounts st ! j) \<noteq> dev"
          using h by simp
      qed
      show ?thesis by (simp only: a b c)
    qed
  qed
qed

lemma find_mount_None:
  "find_mount st dev = None \<longleftrightarrow> (\<forall>j < mount_count st. device (mounts st ! j) \<noteq> dev)"
  by (simp add: find_mount_def find_mount_from_None)

lemma probe_builtin_drivers_eq:
  "probe_builtin_drivers ds b d mi st =
     (case selected_driver ds b d of
        None \<Rightarrow> (EFI_UNSUPPORTED, st)
      | Some (drv, ctx) \<Rightarrow> (EFI_SUCCESS, commit_builtin mi drv ctx st))"
proof (induction ds)
  case Nil
  then show ?case by simp
next
  case (Cons drv ds)
  show ?case
  proof (cases "probe drv")
    case None
    then show ?thesis using Cons by simp
  next
    case (Some pr)
    obtain s ctx where m: "mount drv b d = (s, ctx)" by (cases "mount drv b d")
    show ?thesis using Cons Some m by (simp add: commit_builtin_def)
  qed
qed

lemma open_unfold:
  "sb_vfs_open_device gBS ds dev st =
     (if find_mount st dev \<noteq> None then (EFI_SUCCESS, st)
      else if mount_count st \<ge> VFS_MAX_MOUNTS then (EFI_OUT_OF_RESOURCES, st)
      else open_fresh gBS ds dev (mount_count st) (scribble st dev))"
  by (simp add: sb_vfs_open_device_def open_fresh_def scribble_def commit_native_def
      probe_builtin_drivers_eq Let_def split_beta)

lemma status_facts:
  "EFI_ERROR EFI_UNSUPPORTED" "EFI_ERROR EFI_OUT_OF_RESOURCES" "\<not> EFI_ERROR EFI_SUCCESS"
  by (simp_all add: EFI_ERROR_def EFI_UNSUPPORTED_def EFI_OUT_OF_RESOURCES_def EFIERR_def
      EFI_SUCCESS_def bit_or_iff)

lemma scribble_facts:
  "mount_count (scribble st dev) = mount_count st"
  "length (mounts (scribble st dev)) = length (mounts st)"
  "scribble (scribble st dev) dev = scribble st dev"
  "mount_count st < length (mounts st) \<Longrightarrow>
     device (mounts (scribble st dev) ! mount_count st) = dev"
  by (simp_all add: scribble_def zero_mount_def)

lemma find_mount_scribble:
  "find_mount (scribble st dev) dev' = find_mount st dev'"
proof -
  have "find_mount (scribble st dev) dev' = None \<longleftrightarrow> find_mount st dev' = None"
    by (simp add: find_mount_None scribble_def)
  moreover have "find_mount_from (scribble st dev) dev' i = find_mount_from st dev' i" for i
  proof (induction st dev' i rule: find_mount_from.induct)
    case (1 st dev' i)
    show ?case
    proof (cases "i < mount_count st")
      case True
      then have n: "mounts (scribble st dev) ! i = mounts st ! i"
        by (simp add: scribble_def)
      show ?thesis
        using True n 1
        by (subst find_mount_from.simps, subst (2) find_mount_from.simps)
           (simp add: scribble_facts)
    next
      case False
      then show ?thesis
        by (subst find_mount_from.simps, subst (2) find_mount_from.simps)
           (simp add: scribble_facts)
    qed
  qed
  ultimately show ?thesis by (simp add: find_mount_def)
qed

lemma found_after_commit:
  assumes "mount_count st0 < length (mounts st0)"
    and "device (mounts st0 ! mount_count st0) = dev"
  shows "find_mount (commit_native (mount_count st0) st0) dev \<noteq> None"
    and "find_mount (commit_builtin (mount_count st0) drv ctx st0) dev \<noteq> None"
proof -
  have "\<not> (\<forall>j < mount_count (commit_native (mount_count st0) st0).
            device (mounts (commit_native (mount_count st0) st0) ! j) \<noteq> dev)"
    using assms by (auto simp: commit_native_def intro!: exI [of _ "mount_count st0"])
  then show "find_mount (commit_native (mount_count st0) st0) dev \<noteq> None"
    by (simp add: find_mount_None)
  have "\<not> (\<forall>j < mount_count (commit_builtin (mount_count st0) drv ctx st0).
            device (mounts (commit_builtin (mount_count st0) drv ctx st0) ! j) \<noteq> dev)"
    using assms by (auto simp: commit_builtin_def intro!: exI [of _ "mount_count st0"])
  then show "find_mount (commit_builtin (mount_count st0) drv ctx st0) dev \<noteq> None"
    by (simp add: find_mount_None)
qed

lemma open_found:
  "find_mount st dev \<noteq> None \<Longrightarrow> sb_vfs_open_device gBS ds dev st = (EFI_SUCCESS, st)"
  by (simp add: open_unfold)

lemma open_twice:
  assumes wf: "vfs_wf st"
  shows "sb_vfs_open_device gBS ds dev (snd (sb_vfs_open_device gBS ds dev st))
         = sb_vfs_open_device gBS ds dev st"
proof (cases "find_mount st dev \<noteq> None")
  case True
  then show ?thesis by (simp add: open_found)
next
  case False
  note nf = this
  show ?thesis
  proof (cases "mount_count st \<ge> VFS_MAX_MOUNTS")
    case True
    with nf show ?thesis by (simp add: open_unfold)
  next
    case False
    define st0 where "st0 = scribble st dev"
    define mc where "mc = mount_count st"
    have lt: "mount_count st0 < length (mounts st0)"
      using wf False by (simp add: st0_def scribble_facts vfs_wf_def)
    have dv: "device (mounts st0 ! mount_count st0) = dev"
      using wf False by (simp add: st0_def scribble_facts vfs_wf_def)
    have first: "sb_vfs_open_device gBS ds dev st = open_fresh gBS ds dev (mount_count st0) st0"
      using nf False by (simp add: open_unfold st0_def scribble_facts)
    have again: "sb_vfs_open_device gBS ds dev st0 = open_fresh gBS ds dev (mount_count st0) st0"
      using nf False by (simp add: open_unfold st0_def scribble_facts find_mount_scribble)
    show ?thesis
    proof (cases "\<not> EFI_ERROR (simple_file_system gBS dev)")
      case True
      then have r: "open_fresh gBS ds dev (mount_count st0) st0
                    = (EFI_SUCCESS, commit_native (mount_count st0) st0)"
        by (simp add: open_fresh_def)
      show ?thesis
        by (simp add: first r open_found found_after_commit(1) [OF lt dv])
    next
      case False
      note nn = this
      show ?thesis
      proof (cases "EFI_ERROR (fst (block_io_protocol gBS dev))")
        case True
        with nn have r: "open_fresh gBS ds dev (mount_count st0) st0
                    = (fst (block_io_protocol gBS dev), st0)"
          by (simp add: open_fresh_def)
        show ?thesis by (simp add: first r again)
      next
        case False
        note bio = this
        let ?sel = "selected_driver ds (snd (block_io_protocol gBS dev))
                   (if EFI_ERROR (fst (disk_io_protocol gBS dev)) then None
                    else Some (snd (disk_io_protocol gBS dev)))"
        show ?thesis
        proof (cases ?sel)
          case None
          with nn bio have r: "open_fresh gBS ds dev (mount_count st0) st0
                    = (EFI_UNSUPPORTED, st0)"
            by (simp add: open_fresh_def)
          show ?thesis by (simp add: first r again)
        next
          case (Some a)
          obtain drv ctx where a: "a = (drv, ctx)" by (cases a)
          from Some a nn bio have r: "open_fresh gBS ds dev (mount_count st0) st0
                    = (EFI_SUCCESS, commit_builtin (mount_count st0) drv ctx st0)"
            by (simp add: open_fresh_def)
          show ?thesis
            by (simp add: first r open_found found_after_commit(2) [OF lt dv])
        qed
      qed
    qed
  qed
qed

text \<open>
  Claim C8, as the code has it.  On a table of 64 slots with at most 64 in use, opening
  a device a second time changes nothing and answers as the first call did: the table
  after two calls is the table after one, the second call returns the status of the
  first (so success whenever the first call succeeded), and the entries keyed by the
  device are the same, so no duplicate is added.
\<close>

theorem open_device_idempotent:
  "vfs_wf st \<Longrightarrow>
     snd (sb_vfs_open_device gBS ds dev (snd (sb_vfs_open_device gBS ds dev st)))
       = snd (sb_vfs_open_device gBS ds dev st)
   \<and> fst (sb_vfs_open_device gBS ds dev (snd (sb_vfs_open_device gBS ds dev st)))
       = fst (sb_vfs_open_device gBS ds dev st)
   \<and> (fst (sb_vfs_open_device gBS ds dev st) = EFI_SUCCESS \<longrightarrow>
        fst (sb_vfs_open_device gBS ds dev (snd (sb_vfs_open_device gBS ds dev st)))
          = EFI_SUCCESS)
   \<and> entries_keyed_by
         (snd (sb_vfs_open_device gBS ds dev (snd (sb_vfs_open_device gBS ds dev st)))) dev
       = entries_keyed_by (snd (sb_vfs_open_device gBS ds dev st)) dev"
  using open_twice [of st gBS ds dev] by simp

lemma empty_table_wf: "vfs_wf empty_table"
  by (simp add: vfs_wf_def empty_table_def VFS_MAX_MOUNTS_def)

lemma find_mount_empty_table: "find_mount empty_table dev = None"
  by (simp add: find_mount_None empty_table_def)

lemma open_native_empty:
  "fst (sb_vfs_open_device native_handles [] 7 empty_table) = EFI_SUCCESS"
  by (simp add: open_unfold find_mount_empty_table open_fresh_def native_handles_def
      block_only_handles_def status_facts)
     (simp add: empty_table_def VFS_MAX_MOUNTS_def)

theorem open_device_idempotent_witness:
  "vfs_wf empty_table
   \<and> fst (sb_vfs_open_device native_handles [] 7
             (snd (sb_vfs_open_device native_handles [] 7 empty_table))) = EFI_SUCCESS"
  using open_device_idempotent [OF empty_table_wf, of native_handles "[]" 7]
  by (simp add: empty_table_wf open_native_empty)

text \<open>
  The second call does not always return success: on a partition that only a stub driver
  recognises (its \<open>mount\<close> answers \<open>EFI_UNSUPPORTED\<close>), both calls return
  \<open>EFI_UNSUPPORTED\<close>.
\<close>

theorem open_device_second_call_counterexample:
  "fst (sb_vfs_open_device block_only_handles [stub_driver] 7 empty_table) = EFI_UNSUPPORTED
   \<and> fst (sb_vfs_open_device block_only_handles [stub_driver] 7
             (snd (sb_vfs_open_device block_only_handles [stub_driver] 7 empty_table)))
       = EFI_UNSUPPORTED
   \<and> EFI_ERROR EFI_UNSUPPORTED
   \<and> EFI_UNSUPPORTED \<noteq> EFI_SUCCESS"
proof -
  have 1: "fst (sb_vfs_open_device block_only_handles [stub_driver] 7 empty_table)
           = EFI_UNSUPPORTED"
    by (simp add: open_unfold find_mount_empty_table open_fresh_def block_only_handles_def
        stub_driver_def status_facts)
       (simp add: empty_table_def VFS_MAX_MOUNTS_def)
  have 2: "EFI_UNSUPPORTED \<noteq> EFI_SUCCESS"
    using status_facts by auto
  show ?thesis
    by (simp add: open_twice [OF empty_table_wf] 1 2 status_facts)
qed

section \<open>Properties of the Limine parser\<close>

lemma efi_flag_zero: "efi_flag (new_entry dev cfg n p)"
  by (simp add: efi_flag_def new_entry_def zero_target_def peek16_def)

lemma efi_flag_set_key: "efi_flag t \<Longrightarrow> efi_flag (limine_set_key key val t)"
  by (simp add: efi_flag_def limine_set_key_def)

lemma inv_p: "limine_inv m (s\<lparr>ls_p := q\<rparr>) = limine_inv m s"
  by (simp add: limine_inv_def)

lemma limine_step_inv:
  assumes inv: "limine_inv m s"
  shows "case limine_step dev cfg m s of Continue s' \<Rightarrow> limine_inv m s' | Break s' \<Rightarrow> limine_inv m s'"
proof -
  define p where "p = sb_skip_whitespace (ls_p s)"
  show ?thesis
  proof (cases "peek p = CHR 0x0A")
    case True
    then show ?thesis
      using step_newline [of s dev cfg m] inv by (simp add: p_def inv_p)
  next
    case False
    note nl = this
    show ?thesis
    proof (cases "peek p = CHR ''#''")
      case True
      then show ?thesis
        using step_comment [of s dev cfg m] inv by (simp add: p_def inv_p)
    next
      case False
      note nh = this
      show ?thesis
      proof (cases "peek p = CHR ''/''")
        case True
        note sl = this
        show ?thesis
        proof (cases "ls_in_section s")
          case False
          show ?thesis
          proof (cases "ls_count s < m")
            case True
            have "limine_inv m (s\<lparr>ls_p := q,
                 ls_targets := (ls_targets s)[ls_count s := new_entry dev cfg (ls_count s) r],
                 ls_cur := Some (ls_count s), ls_in_section := True\<rparr>)" for q r
              using inv True by (simp add: limine_inv_def efi_flag_zero)
            then show ?thesis
              using step_header [of s m dev cfg] sl False True by (simp add: p_def)
          next
            case nlt: False
            then show ?thesis
              using step_header_break [of s m dev cfg] sl False inv by (simp add: p_def inv_p)
          qed
        next
          case True
          note ins = this
          show ?thesis
          proof (cases "ls_cur s")
            case (Some i)
            have i: "i = ls_count s" "i < m" "efi_flag (ls_targets s ! i)"
              using inv Some by (auto simp: limine_inv_def)
            have "limine_inv m (s\<lparr>ls_p := p,
                 ls_count := (if accepted (ls_targets s ! i) then ls_count s + 1 else ls_count s),
                 ls_in_section := False, ls_cur := None\<rparr>)"
              using inv i by (auto simp: limine_inv_def entry_ok_def less_Suc_eq)
            then show ?thesis
              using step_close [of s i dev cfg m] sl ins Some by (simp add: p_def)
          next
            case None
            then show ?thesis
              using step_other [of s dev cfg m] nl nh ins inv by (simp add: p_def inv_p)
          qed
        qed
      next
        case False
        note nsl = this
        show ?thesis
        proof (cases "ls_in_section s \<and> ls_cur s \<noteq> None")
          case True
          then obtain i where i: "ls_cur s = Some i" by auto
          have ii: "i = ls_count s" "i < m" "efi_flag (ls_targets s ! i)"
            using inv i by (auto simp: limine_inv_def)
          obtain key val p3 where kv: "kv_scan p = (key, val, p3)" by (cases "kv_scan p") auto
          have "limine_inv m (s\<lparr>ls_p := sb_next_line p3,
                    ls_targets := (ls_targets s)[i := limine_set_key key val (ls_targets s ! i)]\<rparr>)"
            using inv i ii by (simp add: limine_inv_def efi_flag_set_key)
          then show ?thesis
            using step_key_value [of s i dev cfg m] nl nh nsl True i kv by (simp add: p_def)
        next
          case False
          then show ?thesis
            using step_other [of s dev cfg m] nl nh nsl inv by (simp add: p_def inv_p)
        qed
      qed
    qed
  qed
qed

lemma limine_loop_inv:
  "limine_inv m s \<Longrightarrow> limine_inv m (limine_loop dev cfg m s)"
proof (induction dev cfg m s rule: limine_loop.induct)
  case (1 dev cfg m s)
  show ?case
  proof (cases "ls_p s = []")
    case True
    then show ?thesis using "1.prems" by (subst limine_loop.simps) simp
  next
    case False
    show ?thesis
    proof (cases "limine_step dev cfg m s")
      case (Continue s')
      then have "limine_inv m s'" using limine_step_inv [OF "1.prems", of dev cfg] by simp
      then have "limine_inv m (limine_loop dev cfg m s')"
        by (rule "1.IH" [OF False Continue])
      then show ?thesis using False Continue by (subst limine_loop.simps) simp
    next
      case (Break s')
      then have "limine_inv m s'" using limine_step_inv [OF "1.prems", of dev cfg] by simp
      then show ?thesis using False Break by (subst limine_loop.simps) simp
    qed
  qed
qed

text \<open>
  Claim C5, as the code has it.  For every input and every output array with room for
  \<open>max\<close> entries, the section parser returns success with at most \<open>max\<close> entries, and
  every entry it accepted satisfies: if \<open>is_chainload\<close> is false then \<open>kernel_path\<close> is
  set, and \<open>efi_path\<close> is set only if \<open>is_chainload\<close> is true.  (An accepted entry
  with \<open>is_chainload\<close> true may have an empty \<open>efi_path\<close>.)
\<close>

theorem limine_accepted_entries:
  "max' \<le> length targets \<Longrightarrow>
   limine_parse config_data dev cfg targets max' = (status, out, count) \<Longrightarrow>
     status = EFI_SUCCESS \<and> count \<le> max'
   \<and> (\<forall>i < count.
          (\<not> is_chainload (out ! i) \<longrightarrow> peek16 (kernel_path (out ! i)) \<noteq> 0)
        \<and> (peek16 (efi_path (out ! i)) \<noteq> 0 \<longrightarrow> is_chainload (out ! i)))"
proof -
  assume cap: "max' \<le> length targets"
    and run: "limine_parse config_data dev cfg targets max' = (status, out, count)"
  define s0 where "s0 = \<lparr>ls_p = config_data, ls_targets = targets, ls_count = 0,
                         ls_cur = None, ls_in_section = False\<rparr>"
  define s where "s = limine_loop dev cfg max' s0"
  have "limine_inv max' s0" using cap by (simp add: limine_inv_def s0_def)
  then have inv: "limine_inv max' s" unfolding s_def by (rule limine_loop_inv)
  define c where "c = (if ls_in_section s \<and> ls_cur s \<noteq> None
                           \<and> accepted (ls_targets s ! the (ls_cur s))
                        then ls_count s + 1 else ls_count s)"
  have "limine_parse config_data dev cfg targets max' = (EFI_SUCCESS, ls_targets s, c)"
    by (simp add: limine_parse_def s_def s0_def c_def Let_def)
  with run have res: "status = EFI_SUCCESS" "out = ls_targets s" "count = c"
    by simp_all
  have ok: "\<forall>i < c. entry_ok (ls_targets s ! i)" and le: "c \<le> max'"
    using inv unfolding c_def by (auto simp: limine_inv_def entry_ok_def less_Suc_eq)
  show ?thesis
    using ok le res by (auto simp: entry_ok_def accepted_def efi_flag_def)
qed

lemmas limine_eval_simps =
  limine_loop.simps limine_step_def scan_token_def trim_trailing_def limine_set_key_def
  limine_path_to_uefi_def sb_strstr8_def sb_strlen8_def sb_strcpy8_def sb_str8to16_def
  peek_def peek16_def accepted_def SB_MAX_PATH_def SB_MAX_TITLE_def SB_MAX_CMDLINE_def
  SB_MAX_INITRDS_def Let_def

lemma chainload_scenario_run:
  "limine_parse
     ''/Win\<newline>  protocol: chainload\<newline>  image_path: /EFI/Microsoft/Boot/bootmgfw.efi\<newline>''
     5 (wide ''limine.cfg'') [zero_target] 1
   = (EFI_SUCCESS,
      [zero_target\<lparr>config_type := CONFIG_TYPE_LIMINE, device_handle := 5,
           config_path := wide ''limine.cfg'', index := 0, title := wide ''Win'',
           is_chainload := True,
           efi_path := 0x5C # wide ''EFI'' @ 0x5C # wide ''Microsoft'' @ 0x5C # wide ''Boot''
                         @ 0x5C # wide ''bootmgfw.efi''\<rparr>],
      1)"
  by (simp add: limine_parse_def limine_eval_simps wide_def)

theorem limine_accepted_entries_witness:
  "(1 :: nat) \<le> length [zero_target]
   \<and> is_chainload
        (zero_target\<lparr>config_type := CONFIG_TYPE_LIMINE, device_handle := 5,
           config_path := wide ''limine.cfg'', index := 0, title := wide ''Win'',
           is_chainload := True,
           efi_path := 0x5C # wide ''EFI'' @ 0x5C # wide ''Microsoft'' @ 0x5C # wide ''Boot''
                         @ 0x5C # wide ''bootmgfw.efi''\<rparr>)"
proof -
  have cap: "(1 :: nat) \<le> length [zero_target]" by simp
  from limine_accepted_entries [OF cap chainload_scenario_run]
  show ?thesis by (simp add: peek16_def)
qed

text \<open>
  A section holding only \<open>protocol: chainload\<close> is accepted with \<open>is_chainload\<close> true
  and an empty \<open>efi_path\<close>.
\<close>

theorem limine_chainload_without_path_counterexample:
  "limine_parse ''/Win\<newline>  protocol: chainload\<newline>''
       5 (wide ''limine.cfg'') [zero_target] 1
   = (EFI_SUCCESS,
      [zero_target\<lparr>config_type := CONFIG_TYPE_LIMINE, device_handle := 5,
           config_path := wide ''limine.cfg'', index := 0, title := wide ''Win'',
           is_chainload := True\<rparr>],
      1)
   \<and> efi_path (zero_target\<lparr>config_type := CONFIG_TYPE_LIMINE, device_handle := 5,
           config_path := wide ''limine.cfg'', index := 0, title := wide ''Win'',
           is_chainload := True\<rparr>) = []
   \<and> is_chainload (zero_target\<lparr>config_type := CONFIG_TYPE_LIMINE, device_handle := 5,
           config_path := wide ''limine.cfg'', index := 0, title := wide ''Win'',
           is_chainload := True\<rparr>)"
  by (simp add: limine_parse_def limine_eval_simps wide_def) (simp add: zero_target_def)

text \<open>
  Claim C9.  On the input of the specification's first scenario, with room for at least
  one entry, the section parser returns success and a count of one; the entry, in slot 0,
  is the zeroed entry with the origin filled in, title \<open>L"Arch"\<close>, kernel path
  \<open>L"\vmlinuz"\<close> (the device prefix stripped, the slash rewritten to a backslash),
  command line \<open>root=UUID=abc rw\<close>, and \<open>is_chainload\<close> false.
\<close>

theorem limine_single_section:
  "0 < max' \<Longrightarrow> max' \<le> length targets \<Longrightarrow>
   limine_parse
     ''/Arch\<newline>  protocol: linux\<newline>  kernel_path: boot():/vmlinuz\<newline>  kernel_cmdline: root=UUID=abc rw\<newline>''
     dev cfg targets max'
   = (EFI_SUCCESS,
      targets[0 := zero_target\<lparr>config_type := CONFIG_TYPE_LIMINE, device_handle := dev,
                     config_path := cfg, index := 0, title := wide ''Arch'',
                     kernel_path := 0x5C # wide ''vmlinuz'',
                     cmdline := ''root=UUID=abc rw''\<rparr>],
      1)
   \<and> is_chainload (zero_target\<lparr>config_type := CONFIG_TYPE_LIMINE, device_handle := dev,
                     config_path := cfg, index := 0, title := wide ''Arch'',
                     kernel_path := 0x5C # wide ''vmlinuz'',
                     cmdline := ''root=UUID=abc rw''\<rparr>) = False"
proof -
  assume "0 < max'" "max' \<le> length targets"
  then have "0 < length targets" by arith
  with \<open>0 < max'\<close> show ?thesis
    by (simp add: limine_parse_def limine_eval_simps wide_def) (simp add: zero_target_def)
qed

theorem limine_single_section_witness:
  "limine_parse
     ''/Arch\<newline>  protocol: linux\<newline>  kernel_path: boot():/vmlinuz\<newline>  kernel_cmdline: root=UUID=abc rw\<newline>''
     5 (wide ''limine.cfg'') [zero_target] 1
   = (EFI_SUCCESS,
      [zero_target\<lparr>config_type := CONFIG_TYPE_LIMINE, device_handle := 5,
                     config_path := wide ''limine.cfg'', index := 0, title := wide ''Arch'',
                     kernel_path := 0x5C # wide ''vmlinuz'',
                     cmdline := ''root=UUID=abc rw''\<rparr>],
      1)"
  using limine_single_section [of 1 "[zero_target]" 5 "wide ''limine.cfg''"] by simp

section \<open>Properties of the ext4 driver\<close>

lemmas dir_eval_simps =
  dir_record_def name_matches_def de_inode_def de_rec_len_def de_name_len_def de_name_def
  rd16_def rd32_def byte_at_def sb_strlen8_def peek_def char_of_eq_iff

lemma two_records_walk: "dir_walk two_record_dir 24 ''b'' 0 = (13, 2)"
  by (simp add: dir_walk.simps dir_eval_simps two_record_dir_def)

lemma dir_walk_bound: "snd (dir_walk dir_data e name' p) \<le> e - p"
proof (induction dir_data e name' p rule: dir_walk.induct)
  case (1 dir_data e name' p)
  show ?case
  proof (cases "p + 8 < e")
    case False
    then show ?thesis by (subst dir_walk.simps) simp
  next
    case True
    show ?thesis
    proof (cases "dir_record dir_data name' p")
      case (Done r)
      then show ?thesis using True by (subst dir_walk.simps) simp
    next
      case (Next n)
      have n: "0 < n" using Next by (rule dir_record_Next_positive)
      have ih: "snd (dir_walk dir_data e name' (p + n)) \<le> e - (p + n)"
        by (rule "1.IH" [OF True Next])
      have "snd (dir_walk dir_data e name' p) = snd (dir_walk dir_data e name' (p + n)) + 1"
        using True Next by (subst dir_walk.simps) (simp add: split_beta)
      then show ?thesis using ih n True by arith
    qed
  qed
qed

lemma dir_walk_stop: "e \<le> p + 8 \<Longrightarrow> dir_walk dir_data e name' p = (0, 0)"
  by (subst dir_walk.simps) simp

lemma dir_walk_Done:
  "p + 8 < e \<Longrightarrow> dir_record dir_data name' p = Done r \<Longrightarrow>
   dir_walk dir_data e name' p = (r, 1)"
  by (subst dir_walk.simps) simp

lemma dir_walk_Next:
  "p + 8 < e \<Longrightarrow> dir_record dir_data name' p = Next n \<Longrightarrow>
   dir_walk dir_data e name' p
     = (fst (dir_walk dir_data e name' (p + n)), snd (dir_walk dir_data e name' (p + n)) + 1)"
  by (subst dir_walk.simps) (simp add: split_beta)

lemma dir_record_cases:
  "(dir_record dir_data name' p = Done 0 \<and> de_rec_len dir_data p = 0)
   \<or> (dir_record dir_data name' p = Done (de_inode dir_data p)
        \<and> de_rec_len dir_data p \<noteq> 0 \<and> name_matches dir_data name' p)
   \<or> (dir_record dir_data name' p = Next (unat (de_rec_len dir_data p))
        \<and> 1 \<le> unat (de_rec_len dir_data p) \<and> \<not> name_matches dir_data name' p)"
  by (auto simp: dir_record_def unat_gt_0 Suc_le_eq)

text \<open>
  C10.  The walk over the directory records in \<open>ext4_dir_lookup\<close> terminates
  (\<open>dir_walk\<close> is a total function) and visits at most \<open>dir_size - p\<close> records from the
  cursor \<open>p\<close>, whatever the buffer holds.  An iteration is not entered when 8 bytes or
  fewer remain before the end (the guard is \<open>p + 8 < end\<close>); an iteration that is entered
  stops with result 0 when \<open>rec_len\<close> is 0, stops with the record's inode when the name
  matches, and otherwise advances the cursor by \<open>rec_len\<close>, which is at least 1.
\<close>

theorem dir_walk_terminates:
  "snd (dir_walk dir_data dir_size name' p) \<le> dir_size - p
   \<and> (dir_size \<le> p + 8 \<longrightarrow> dir_walk dir_data dir_size name' p = (0, 0))
   \<and> (p + 8 < dir_size \<longrightarrow>
        (de_rec_len dir_data p = 0 \<and> dir_walk dir_data dir_size name' p = (0, 1))
      \<or> (de_rec_len dir_data p \<noteq> 0 \<and> name_matches dir_data name' p
           \<and> dir_walk dir_data dir_size name' p = (de_inode dir_data p, 1))
      \<or> (de_rec_len dir_data p \<noteq> 0 \<and> \<not> name_matches dir_data name' p
           \<and> 1 \<le> unat (de_rec_len dir_data p)
           \<and> dir_walk dir_data dir_size name' p
               = (fst (dir_walk dir_data dir_size name' (p + unat (de_rec_len dir_data p))),
                  snd (dir_walk dir_data dir_size name' (p + unat (de_rec_len dir_data p)))
                    + 1)))"
proof (intro conjI impI)
  show "snd (dir_walk dir_data dir_size name' p) \<le> dir_size - p"
    by (rule dir_walk_bound)
next
  assume "dir_size \<le> p + 8"
  then show "dir_walk dir_data dir_size name' p = (0, 0)" by (rule dir_walk_stop)
next
  assume lt: "p + 8 < dir_size"
  from dir_record_cases [of dir_data name' p]
  show "(de_rec_len dir_data p = 0 \<and> dir_walk dir_data dir_size name' p = (0, 1))
      \<or> (de_rec_len dir_data p \<noteq> 0 \<and> name_matches dir_data name' p
           \<and> dir_walk dir_data dir_size name' p = (de_inode dir_data p, 1))
      \<or> (de_rec_len dir_data p \<noteq> 0 \<and> \<not> name_matches dir_data name' p
           \<and> 1 \<le> unat (de_rec_len dir_data p)
           \<and> dir_walk dir_data dir_size name' p
               = (fst (dir_walk dir_data dir_size name' (p + unat (de_rec_len dir_data p))),
                  snd (dir_walk dir_data dir_size name' (p + unat (de_rec_len dir_data p)))
                    + 1))"
  proof (elim disjE conjE)
    assume "dir_record dir_data name' p = Done 0" "de_rec_len dir_data p = 0"
    then show ?thesis using dir_walk_Done [OF lt] by simp
  next
    assume "dir_record dir_data name' p = Done (de_inode dir_data p)"
      "de_rec_len dir_data p \<noteq> 0" "name_matches dir_data name' p"
    then show ?thesis using dir_walk_Done [OF lt] by simp
  next
    assume "dir_record dir_data name' p = Next (unat (de_rec_len dir_data p))"
      "1 \<le> unat (de_rec_len dir_data p)" "\<not> name_matches dir_data name' p"
    moreover from this have "de_rec_len dir_data p \<noteq> 0" by (auto simp: unat_eq_0)
    ultimately show ?thesis
      using dir_walk_Next [OF lt, of dir_data name' "unat (de_rec_len dir_data p)"] by simp
  qed
qed

text \<open>The walk over \<open>two_record_dir\<close> visits both records and finds \<open>b\<close>.\<close>

theorem dir_walk_terminates_witness:
  "snd (dir_walk two_record_dir 24 ''b'' 0) \<le> 24 - 0 \<and> dir_walk two_record_dir 24 ''b'' 0 = (13, 2)"
  using dir_walk_terminates [of two_record_dir 24 "''b''" 0] by (simp add: two_records_walk)

text \<open>
  With exactly 8 bytes before the end the walk stops without visiting the record, although
  not fewer than 8 bytes remain, \<open>rec_len\<close> is not 0 and the name does not match.
\<close>

theorem dir_walk_eight_bytes_counterexample:
  "dir_walk eight_byte_dir 8 ''x'' 0 = (0, 0)
   \<and> \<not> (8 - 0 < (8 :: nat))
   \<and> de_rec_len eight_byte_dir 0 \<noteq> 0
   \<and> \<not> name_matches eight_byte_dir ''x'' 0"
  by (simp add: dir_walk.simps dir_eval_simps eight_byte_dir_def)

lemmas sb_eval_simps =
  s_magic_def s_log_block_size_def s_rev_level_def s_inode_size_def
  rd16_def rd32_def byte_at_def nth_append
  EXT4_SUPER_MAGIC_def EXT4_SUPERBLOCK_OFFSET_def sizeof_Ext4Superblock_def
  sizeof_Ext4Context_def

lemma length_test_superblock: "length test_superblock = 204"
  by (simp add: test_superblock_def)

lemma test_superblock_fields:
  "s_magic test_superblock = 0xEF53"
  "s_log_block_size test_superblock = 2"
  "s_rev_level test_superblock = 1"
  "s_inode_size test_superblock = 256"
  by (simp_all add: sb_eval_simps test_superblock_def)

lemma zero_superblock_fields:
  "s_log_block_size (replicate 204 0) = 0"
  "s_rev_level (replicate 204 0) = 0"
  by (simp_all add: sb_eval_simps)

lemma block_only_superblock:
  "take sizeof_Ext4Superblock
     (drop (EXT4_SUPERBLOCK_OFFSET mod unat (BlockSize block_only_device))
        (snd (ReadBlocks block_only_device (MediaId block_only_device)
                (of_nat (EXT4_SUPERBLOCK_OFFSET div unat (BlockSize block_only_device))) 2048)))
   = test_superblock"
  by (simp add: block_only_device_def EXT4_SUPERBLOCK_OFFSET_def sizeof_Ext4Superblock_def
        length_test_superblock)

lemma ext4_mount_block_only_shape:
  assumes "ext4_mount pool bio None = Some (st, Some c)"
  shows "st = EFI_SUCCESS \<and> sb c = replicate sizeof_Ext4Superblock 0
         \<and> block_size c = 1024 \<and> inode_size c = 128 \<and> group_desc_size c = 32"
  using assms
  by (auto simp: ext4_mount_def Let_def zero_superblock_fields sizeof_Ext4Superblock_def
           split: option.splits if_splits)

lemma one_le_word: "(1 \<le> (w :: UINT32)) = (w \<noteq> 0)"
  by (simp add: word_le_nat_alt Suc_le_eq unat_gt_0)

lemma ext4_mount_disk_io_shape:
  assumes "ext4_mount pool bio (Some d) = Some (st, Some c)"
  shows "st = EFI_SUCCESS
         \<and> sb c = snd (ReadDisk d (MediaId bio) (of_nat EXT4_SUPERBLOCK_OFFSET)
                         sizeof_Ext4Superblock)
         \<and> block_size c = push_bit (unat (s_log_block_size (sb c))) 1024
         \<and> inode_size c = (if s_rev_level (sb c) = 0 then 128 else ucast (s_inode_size (sb c)))
         \<and> group_desc_size c = 32"
  using assms
  by (auto simp: ext4_mount_def ext4_probe_def Let_def split_beta one_le_word
           split: option.splits if_splits)

lemma block_only_mount:
  "ext4_mount zero_pool block_only_device None = Some (EFI_SUCCESS, Some block_only_context)"
  by (simp add: ext4_mount_def ext4_probe_def zero_pool_def block_only_device_def
        block_only_context_def Let_def sb_eval_simps EFI_SUCCESS_def EFI_ERROR_def
        test_superblock_def)

lemma byte_device_mount:
  "ext4_mount zero_pool block_only_device (Some byte_device)
     = Some (EFI_SUCCESS, Some byte_device_context)"
  by (simp add: ext4_mount_def ext4_probe_def zero_pool_def block_only_device_def
        byte_device_def byte_device_context_def Let_def sb_eval_simps EFI_SUCCESS_def
        EFI_ERROR_def test_superblock_def)

text \<open>
  After a mount through Block I/O alone \<open>s_inodes_per_group\<close> of the context is 0, so
  every \<open>ext4_read_inode\<close> divides by zero.
\<close>

lemma block_only_read_inode:
  assumes "ext4_mount pool bio None = Some (st, Some c)"
  shows "ext4_read_inode pool' c ino = None"
proof -
  from ext4_mount_block_only_shape [OF assms]
  have "sb c = replicate sizeof_Ext4Superblock 0" by simp
  then show ?thesis
    by (simp add: ext4_read_inode_def s_inodes_per_group_def rd32_def byte_at_def
          sizeof_Ext4Superblock_def)
qed

text \<open>
  C3.  When \<open>ext4_mount\<close> stores a context, it returns success, and \<open>block_size\<close>,
  \<open>inode_size\<close> and \<open>group_desc_size\<close> are computed from the context's superblock copy:
  \<open>1024 << s_log_block_size\<close>, 128 for revision 0 and \<open>s_inode_size\<close> otherwise, and 32.
  With Disk I/O that copy is the superblock read at byte offset 1024 of the device.  With
  Block I/O alone the copy is never filled: it keeps the zeros of \<open>AllocateZeroPool\<close>, so
  \<open>block_size\<close> is 1024 and \<open>inode_size\<close> is 128 whatever the device's superblock says.
\<close>

theorem ext4_mount_context:
  assumes "ext4_mount pool bio dio = Some (st, Some c)"
  shows "st = EFI_SUCCESS
         \<and> block_size c = push_bit (unat (s_log_block_size (sb c))) 1024
         \<and> inode_size c = (if s_rev_level (sb c) = 0 then 128 else ucast (s_inode_size (sb c)))
         \<and> group_desc_size c = 32
         \<and> (case dio of
               Some d \<Rightarrow> sb c = snd (ReadDisk d (MediaId bio) (of_nat EXT4_SUPERBLOCK_OFFSET)
                                      sizeof_Ext4Superblock)
             | None \<Rightarrow> sb c = replicate sizeof_Ext4Superblock 0
                        \<and> block_size c = 1024 \<and> inode_size c = 128)"
proof (cases dio)
  case None
  with ext4_mount_block_only_shape [of pool bio st c] assms show ?thesis
    by (simp add: zero_superblock_fields sizeof_Ext4Superblock_def)
next
  case (Some d)
  with ext4_mount_disk_io_shape [of pool bio d st c] assms show ?thesis by simp
qed

text \<open>The mount of the device through Block I/O alone.\<close>

theorem ext4_mount_context_witness:
  "ext4_mount zero_pool block_only_device None = Some (EFI_SUCCESS, Some block_only_context)
   \<and> sb block_only_context = replicate sizeof_Ext4Superblock 0
   \<and> block_size block_only_context = 1024
   \<and> inode_size block_only_context = 128
   \<and> group_desc_size block_only_context = 32"
  using ext4_mount_context [of zero_pool block_only_device None EFI_SUCCESS block_only_context]
  by (simp add: block_only_mount block_only_context_def)

text \<open>
  Through Block I/O alone the mount succeeds on a device whose superblock at byte offset
  1024 is \<open>test_superblock\<close>, and stores neither \<open>1024 << 2\<close> as the block size nor the
  superblock's 256 as the inode size.
\<close>

theorem ext4_mount_block_only_counterexample:
  "ext4_mount zero_pool block_only_device None = Some (EFI_SUCCESS, Some block_only_context)
   \<and> disk_io block_only_context = None
   \<and> take sizeof_Ext4Superblock
         (drop (EXT4_SUPERBLOCK_OFFSET mod unat (BlockSize block_only_device))
            (snd (ReadBlocks block_only_device (MediaId block_only_device)
                    (of_nat (EXT4_SUPERBLOCK_OFFSET div unat (BlockSize block_only_device)))
                    2048)))
       = test_superblock
   \<and> block_size block_only_context
       \<noteq> push_bit (unat (s_log_block_size test_superblock)) 1024
   \<and> s_rev_level test_superblock \<noteq> 0
   \<and> inode_size block_only_context \<noteq> ucast (s_inode_size test_superblock)"
  by (simp add: block_only_mount block_only_superblock test_superblock_fields
        block_only_context_def)

lemma split_slash_unfold:
  "split_slash p
     = takeWhile not_slash p
         # (case dropWhile not_slash p of [] \<Rightarrow> [] | ch # r \<Rightarrow> split_slash r)"
  by (induction p) (auto split: list.splits)

lemma short_components_tail:
  assumes "\<forall>s\<in>set (split_slash p). length s < 256" "dropWhile not_slash p = ch # r"
  shows "\<forall>s\<in>set (split_slash r). length s < 256"
proof -
  have "split_slash p = takeWhile not_slash p # split_slash r"
    using assms(2) by (subst split_slash_unfold) simp
  with assms(1) show ?thesis by simp
qed




lemma ok_status [simp]: "\<not> EFI_ERROR EFI_SUCCESS"
  by (simp add: EFI_ERROR_def EFI_SUCCESS_def)









lemma demo_inode_index:
  "((2::UINT32) - 1) div 32 = 0" "((2::UINT32) - 1) mod 32 = 1"
  "((12::UINT32) - 1) div 32 = 0" "((12::UINT32) - 1) mod 32 = 11"
  by simp_all



















lemma i_mode_with_mode:
  "2 \<le> length inode \<Longrightarrow>
   i_mode (with_mode inode a b) = ucast a OR push_bit 8 (ucast b)"
  by (cases inode) (auto simp: i_mode_def rd16_def byte_at_def with_mode_def)











end
